theory Spec2Isabelle
  imports Complex_Main
begin

section \<open>Python exceptions and results\<close>

text \<open>
  Every raise of the source is a value. The constructors are the exception classes the
  modelled code raises or catches; \<open>KeyboardInterrupt\<close> and \<open>SystemExit\<close> stand for
  the classes that derive from \<open>BaseException\<close> but not from \<open>Exception\<close>, which an
  \<^verbatim>\<open>except Exception\<close> clause does not catch.
\<close>

datatype py_exception =
    NoOpenJobsError
  | KeyError string
  | FileNotFoundError string
  | TypeError string
  | ValueError string
  | AttributeError string
  | ZeroDivisionError
  | RuntimeError string
  | PicklingError string
  | OSError string
  | KeyboardInterrupt
  | SystemExit

fun is_Exception :: "py_exception \<Rightarrow> bool" where
  "is_Exception KeyboardInterrupt = False"
| "is_Exception SystemExit = False"
| "is_Exception _ = True"

section \<open>Iteration reconciliation (experimentdata.py, module level)\<close>

text \<open>
  \<^verbatim>\<open>return iterations // population + (iterations % population > 0)\<close>.
  Python's \<open>//\<close> and \<open>%\<close> on integers are floor division and the remainder with the
  sign of the divisor, as \<open>div\<close> and \<open>mod\<close> on \<open>int\<close> are; a zero divisor raises.
  The comparison is a \<open>bool\<close>, added as 0 or 1.
\<close>

definition number_of_updates :: "int \<Rightarrow> int \<Rightarrow> py_exception + int" where
  "number_of_updates iterations population =
     (if population = 0 then Inl ZeroDivisionError
      else Inr (iterations div population + (if iterations mod population > 0 then 1 else 0)))"

definition number_of_overiterations :: "int \<Rightarrow> int \<Rightarrow> py_exception + int" where
  "number_of_overiterations iterations population =
     (if population = 0 then Inl ZeroDivisionError
      else (let overiterations = iterations mod population in
            if overiterations = 0 then Inr overiterations
            else Inr (population - overiterations)))"

section \<open>Job statuses and the job queue\<close>

text \<open>
  \<open>Status.OPEN\<close> and \<open>Status.FINISHED\<close> are named in experimentdata.py; the other two
  tags are the spec's (section 3: the finite set OPEN, IN_PROGRESS, FINISHED, ERROR).
\<close>

datatype Status = OPEN | IN_PROGRESS | FINISHED | ERROR

text \<open>
  Modelled from the spec: the class \<open>_JobQueue\<close> (module \<open>_jobqueue\<close>) is not under src/.
  Spec section 3: exactly one status tag per row, rows being 0-based contiguous positions;
  so a queue is the list of its statuses.
\<close>

type_synonym JobQueue = "Status list"

text \<open>
  Modelled from the spec: \<open>_JobQueue.get_open_job\<close> is not under src/. Spec 4.1: returns
  the lowest-index row currently OPEN; fails with NoOpenJobs when none exists.
\<close>

fun get_open_job :: "JobQueue \<Rightarrow> py_exception + nat" where
  "get_open_job [] = Inl NoOpenJobsError"
| "get_open_job (s # js) =
     (if s = OPEN then Inr 0
      else (case get_open_job js of Inl e \<Rightarrow> Inl e | Inr i \<Rightarrow> Inr (Suc i)))"

text \<open>
  Modelled from the spec: \<open>mark_as_in_progress\<close>, \<open>mark_as_finished\<close> and
  \<open>mark_as_error\<close> of \<open>_JobQueue\<close> are not under src/. Spec 4.1: calling on any row is
  allowed and simply overwrites the status (last writer wins). The spec names no failure
  for them, so an index beyond the queue is no error here and leaves the queue as it is.
\<close>

definition mark_as_in_progress :: "JobQueue \<Rightarrow> nat \<Rightarrow> JobQueue" where
  "mark_as_in_progress js index = js[index := IN_PROGRESS]"

definition mark_as_finished :: "JobQueue \<Rightarrow> nat \<Rightarrow> JobQueue" where
  "mark_as_finished js index = js[index := FINISHED]"

definition mark_as_error :: "JobQueue \<Rightarrow> nat \<Rightarrow> JobQueue" where
  "mark_as_error js index = js[index := ERROR]"

text \<open>
  Modelled from the spec: \<open>_JobQueue.remove\<close> is not under src/. Spec section 3: removal
  drops the given indices and the remaining rows are contiguous from 0 again.
\<close>

definition JobQueue_remove :: "JobQueue \<Rightarrow> nat list \<Rightarrow> JobQueue" where
  "JobQueue_remove js indices = nths js (- set indices)"

section \<open>The record store\<close>

text \<open>
  A table cell: unset (NaN), a number or a string. Numbers are integers here; no claim
  computes with them.
\<close>

datatype cell = NaN | Number int | Text string

text \<open>
  Modelled from the spec: the class \<open>_Data\<close> (module \<open>_data\<close>) is not under src/. Spec
  section 3: a mapping from column name (unique, ordered) to a sequence of values, one per
  row. The model keeps the column names and the rows, each row holding one cell per column.
\<close>

record Data =
  columns :: "string list"
  rows :: "cell list list"

text \<open>Modelled from the spec: \<open>_Data()\<close>, the store with no column and no row.\<close>

definition Data_empty :: Data where
  "Data_empty = \<lparr>columns = [], rows = []\<rparr>"

text \<open>Modelled from the spec: \<open>_Data.indices\<close>, the row positions \<open>0, ..., n - 1\<close>.\<close>

definition Data_indices :: "Data \<Rightarrow> nat list" where
  "Data_indices d = [0..<length (rows d)]"

text \<open>
  Modelled from the spec: \<open>_Data.from_indices\<close> is not under src/. It gives the output
  store of a ledger whose outputs are not known yet: one row per index, no value in it
  (spec 4.4, claim: input values and currently-unset outputs).
\<close>

definition Data_from_indices :: "nat list \<Rightarrow> Data" where
  "Data_from_indices indices = \<lparr>columns = [], rows = map (\<lambda>_. []) indices\<rparr>"

text \<open>
  Modelled from the spec: \<open>_Data.is_empty\<close> is not under src/; a store is empty when it
  holds no value at all, that is when it has no row or no column.
\<close>

definition Data_is_empty :: "Data \<Rightarrow> bool" where
  "Data_is_empty d = (rows d = [] \<or> columns d = [])"

text \<open>
  Modelled from the spec: \<open>_Data.get_data_dict\<close> is not under src/. Spec 4.2: returns the
  full row as a name-to-value mapping. No failure is named; a position beyond the table
  gives the mapping with no entry.
\<close>

definition get_data_dict :: "Data \<Rightarrow> nat \<Rightarrow> (string \<times> cell) list" where
  "get_data_dict d index =
     (if index < length (rows d) then zip (columns d) (rows d ! index) else [])"

text \<open>
  Modelled from the spec: \<open>_Data.set_data\<close> is not under src/. Spec 4.2: a point update
  that fails with a KeyError-class error if the column is absent. Called without a column
  (as \<open>set_error\<close> does) the value is written to every column of the row. A position
  beyond the table is no named failure and leaves the table as it is.
\<close>

definition set_data :: "Data \<Rightarrow> nat \<Rightarrow> cell \<Rightarrow> string option \<Rightarrow> py_exception + Data" where
  "set_data d index val column =
     (case column of
        None \<Rightarrow>
          (if index < length (rows d)
           then Inr (d\<lparr>rows := (rows d)[index := map (\<lambda>_. val) (rows d ! index)]\<rparr>)
           else Inr d)
      | Some c \<Rightarrow>
          (if c \<notin> set (columns d) then Inl (KeyError c)
           else if index < length (rows d)
           then Inr (d\<lparr>rows := (rows d)[index :=
                   map (\<lambda>(n, x). if n = c then val else x) (zip (columns d) (rows d ! index))]\<rparr>)
           else Inr d))"

text \<open>Modelled from the spec: \<open>_Data.remove\<close> (spec 4.2): drops the rows at the given
  indices and reindexes the remaining rows to be contiguous from 0.\<close>

definition Data_remove :: "Data \<Rightarrow> nat list \<Rightarrow> Data" where
  "Data_remove d indices = d\<lparr>rows := nths (rows d) (- set indices)\<rparr>"

text \<open>
  Modelled from the spec: \<open>_Data.__add__\<close> (spec 4.2, \<open>combine_with\<close>): row-wise
  concatenation, the column sets reconciled by union with unset fill.
\<close>

definition align :: "string list \<Rightarrow> (string \<times> cell) list \<Rightarrow> cell list" where
  "align cols kvs = map (\<lambda>c. case map_of kvs c of None \<Rightarrow> NaN | Some v \<Rightarrow> v) cols"

definition Data_add :: "Data \<Rightarrow> Data \<Rightarrow> Data" where
  "Data_add a b =
     (let cols = columns a @ filter (\<lambda>c. c \<notin> set (columns a)) (columns b) in
      \<lparr>columns = cols,
       rows = map (\<lambda>r. align cols (zip (columns a) r)) (rows a) @
              map (\<lambda>r. align cols (zip (columns b) r)) (rows b)\<rparr>)"

section \<open>Schema, samples and the experiment ledger\<close>

text \<open>
  The parameter classes are the ones \<open>design/__init__.py\<close> exports; the spec (section 3)
  treats the schema as an ordered mapping from input-column name to a parameter
  specification that the core does not interpret.
\<close>

datatype Parameter =
  ContinuousParameter | DiscreteParameter | CategoricalParameter | ConstantParameter

type_synonym Domain = "(string \<times> Parameter) list"

text \<open>
  \<open>ExperimentSample(dict_input=..., dict_output=..., jobnumber=index)\<close>, as
  \<open>get_experiment_sample\<close> builds it; the class itself is not under src/.
\<close>

record ExperimentSample =
  dict_input :: "(string \<times> cell) list"
  dict_output :: "(string \<times> cell) list"
  jobnumber :: nat

record ExperimentData =
  filename :: string
  input_data :: Data
  output_data :: Data
  jobs :: JobQueue
  domain :: Domain

text \<open>\<open>ExperimentData.__len__\<close>: the number of rows of the input store.\<close>

definition len :: "ExperimentData \<Rightarrow> nat" where
  "len L = length (rows (input_data L))"

text \<open>
  \<open>ExperimentData.__eq__\<close>: the four owned structures are compared, the file name is
  not.
\<close>

definition ExperimentData_eq :: "ExperimentData \<Rightarrow> ExperimentData \<Rightarrow> bool" where
  "ExperimentData_eq a b =
     (input_data a = input_data b \<and> output_data a = output_data b \<and>
      jobs a = jobs b \<and> domain a = domain b)"

definition get_experiment_sample :: "ExperimentData \<Rightarrow> nat \<Rightarrow> ExperimentSample" where
  "get_experiment_sample L index =
     \<lparr>dict_input = get_data_dict (input_data L) index,
      dict_output = get_data_dict (output_data L) index,
      jobnumber = index\<rparr>"

text \<open>
  The loop of \<open>set_experiment_sample\<close> over the items of the sample's outputs. A raise
  of \<open>set_data\<close> leaves the loop with the columns written so far.
\<close>

fun set_items :: "Data \<Rightarrow> nat \<Rightarrow> (string \<times> cell) list \<Rightarrow> py_exception option \<times> Data" where
  "set_items d index [] = (None, d)"
| "set_items d index ((column, val) # kvs) =
     (case set_data d index val (Some column) of
        Inl e \<Rightarrow> (Some e, d)
      | Inr d' \<Rightarrow> set_items d' index kvs)"

text \<open>
  A method that mutates the ledger returns what it raised (\<open>None\<close>: it returned) and the
  ledger as it left it.
\<close>

definition set_experiment_sample ::
  "ExperimentData \<Rightarrow> ExperimentSample \<Rightarrow> py_exception option \<times> ExperimentData" where
  "set_experiment_sample L experiment_sample =
     (case set_items (output_data L) (jobnumber experiment_sample) (dict_output experiment_sample) of
        (Some e, d) \<Rightarrow> (Some e, L\<lparr>output_data := d\<rparr>)
      | (None, d) \<Rightarrow>
          (None, L\<lparr>output_data := d,
                   jobs := mark_as_finished (jobs L) (jobnumber experiment_sample)\<rparr>))"

definition access_open_job_data ::
  "ExperimentData \<Rightarrow> (py_exception + ExperimentSample) \<times> ExperimentData" where
  "access_open_job_data L =
     (case get_open_job (jobs L) of
        Inl e \<Rightarrow> (Inl e, L)
      | Inr job_index \<Rightarrow>
          (let L' = L\<lparr>jobs := mark_as_in_progress (jobs L) job_index\<rparr>
           in (Inr (get_experiment_sample L' job_index), L')))"

definition set_error :: "ExperimentData \<Rightarrow> nat \<Rightarrow> py_exception option \<times> ExperimentData" where
  "set_error L index =
     (let L' = L\<lparr>jobs := mark_as_error (jobs L) index\<rparr> in
      case set_data (output_data L') index (Text ''ERROR'') None of
        Inl e \<Rightarrow> (Some e, L')
      | Inr d \<Rightarrow> (None, L'\<lparr>output_data := d\<rparr>))"

text \<open>The number of rows that are OPEN: what a sweep has left to claim.\<close>

definition count_open :: "JobQueue \<Rightarrow> nat" where
  "count_open js = length (filter (\<lambda>s. s = OPEN) js)"

section \<open>The sequential driver\<close>

text \<open>
  A data generator is any object with a \<open>run\<close> method: given a sample it returns a sample
  or raises, and it may change its own state \<open>'g\<close>. The keyword arguments are part of it.
  Samples are values: the sample handed to \<open>run\<close> is the one \<open>set_error\<close> is later
  called for, with the job number it was claimed under.
  \<open>_run_sequential\<close>: the first \<open>try\<close> catches \<open>NoOpenJobsError\<close> only and ends the
  loop; the second catches what derives from \<open>Exception\<close> and calls \<open>set_error\<close>, whose
  own raise would propagate. The result is the exception that left the method, if any,
  with the generator and the ledger as they are then. Logging is left out.
\<close>

type_synonym 'g DataGenerator =
  "'g \<Rightarrow> ExperimentSample \<Rightarrow> (py_exception + ExperimentSample) \<times> 'g"

function run_sequential ::
  "'g DataGenerator \<Rightarrow> 'g \<Rightarrow> ExperimentData \<Rightarrow> py_exception option \<times> 'g \<times> ExperimentData" where
  "run_sequential data_generator g L =
     (case access_open_job_data L of
        (Inl e, L1) \<Rightarrow> (if e = NoOpenJobsError then (None, g, L1) else (Some e, g, L1))
      | (Inr experiment_sample, L1) \<Rightarrow>
          (case data_generator g experiment_sample of
             (Inl e, g1) \<Rightarrow>
               (if is_Exception e
                then (case set_error L1 (jobnumber experiment_sample) of
                        (Some e', L2) \<Rightarrow> (Some e', g1, L2)
                      | (None, L2) \<Rightarrow> run_sequential data_generator g1 L2)
                else (Some e, g1, L1))
           | (Inr sample', g1) \<Rightarrow>
               (case set_experiment_sample L1 sample' of
                  (Some e, L2) \<Rightarrow>
                    (if is_Exception e
                     then (case set_error L2 (jobnumber experiment_sample) of
                             (Some e', L3) \<Rightarrow> (Some e', g1, L3)
                           | (None, L3) \<Rightarrow> run_sequential data_generator g1 L3)
                     else (Some e, g1, L2))
                | (None, L2) \<Rightarrow> run_sequential data_generator g1 L2)))"
  by pat_completeness auto

section \<open>Example ledgers\<close>

text \<open>A ledger of two rows, one finished and one claimed, none open.\<close>

definition L_demo :: ExperimentData where
  "L_demo = \<lparr>filename = ''exp'',
     input_data = \<lparr>columns = [''x''], rows = [[Number 1], [Number 2]]\<rparr>,
     output_data = \<lparr>columns = [''y''], rows = [[Number 5], [NaN]]\<rparr>,
     jobs = [FINISHED, IN_PROGRESS],
     domain = [(''x'', ContinuousParameter)]\<rparr>"

section \<open>Contracts of a data generator\<close>

text \<open>
  Two properties a data generator may have. The first: the sample \<open>run\<close> returns carries
  the job number of the sample it was given (\<open>set_experiment_sample\<close> writes to the row
  the returned sample names). The second: what \<open>run\<close> raises derives from \<open>Exception\<close>.
\<close>

definition returns_own_job :: "'g DataGenerator \<Rightarrow> bool" where
  "returns_own_job dg = (\<forall>g s s' g'. dg g s = (Inr s', g') \<longrightarrow> jobnumber s' = jobnumber s)"

definition raises_Exception_only :: "'g DataGenerator \<Rightarrow> bool" where
  "raises_Exception_only dg = (\<forall>g s e g'. dg g s = (Inl e, g') \<longrightarrow> is_Exception e)"

text \<open>
  What a sweep owes the job queue: same length, every row that was OPEN is FINISHED or
  ERROR, every other row has the status it had.
\<close>

definition settled :: "JobQueue \<Rightarrow> JobQueue \<Rightarrow> bool" where
  "settled js js' = (length js' = length js \<and>
     (\<forall>i < length js. if js ! i = OPEN then js' ! i = FINISHED \<or> js' ! i = ERROR
                       else js' ! i = js ! i))"

text \<open>
  A ledger of two open rows, and three generators: one whose returned sample always names
  row 1, one that is interrupted from the keyboard, and one that fails on row 0 and
  succeeds elsewhere.
\<close>

definition L_open2 :: ExperimentData where
  "L_open2 = \<lparr>filename = ''exp'',
     input_data = \<lparr>columns = [''x''], rows = [[Number 1], [Number 2]]\<rparr>,
     output_data = \<lparr>columns = [''y''], rows = [[NaN], [NaN]]\<rparr>,
     jobs = [OPEN, OPEN],
     domain = [(''x'', ContinuousParameter)]\<rparr>"

definition dg_swap :: "unit DataGenerator" where
  "dg_swap g s = (Inr (s\<lparr>dict_output := [(''y'', Number 7)], jobnumber := 1\<rparr>), g)"

definition dg_interrupt :: "unit DataGenerator" where
  "dg_interrupt g s = (Inl KeyboardInterrupt, g)"

definition dg_flaky :: "unit DataGenerator" where
  "dg_flaky g s =
     (if jobnumber s = 0 then (Inl (RuntimeError ''diverged''), g)
      else (Inr (s\<lparr>dict_output := [(''y'', Number 7)]\<rparr>), g))"

section \<open>The iteration controller\<close>

text \<open>
  Python's \<open>xs[start:]\<close>: a negative start counts from the end, and a start beyond
  either end is clipped.
\<close>

definition py_slice_from :: "'a list \<Rightarrow> int \<Rightarrow> 'a list" where
  "py_slice_from xs start =
     (let n = int (length xs);
          s = (if start < 0 then max 0 (n + start) else min start n)
      in drop (nat s) xs)"

text \<open>
  \<open>remove_rows_bottom\<close>: nothing for 0 rows; otherwise the last \<open>number_of_rows\<close>
  indices of the input store are removed from the three owned structures.
\<close>

definition remove_rows_bottom :: "ExperimentData \<Rightarrow> int \<Rightarrow> ExperimentData" where
  "remove_rows_bottom L number_of_rows =
     (if number_of_rows = 0 then L
      else (let indices = py_slice_from (Data_indices (input_data L)) (- number_of_rows) in
        L\<lparr>input_data := Data_remove (input_data L) indices,
          output_data := Data_remove (output_data L) indices,
          jobs := JobQueue_remove (jobs L) indices\<rparr>))"

text \<open>
  \<open>add_experiments\<close> for an \<open>ExperimentData\<close> argument, which is what \<open>update_step\<close>
  returns: the argument's index is reset (nothing to do on positions) and the three
  structures are extended with \<open>+=\<close>; on job queues that is concatenation (spec 4.4,
  union: all three structures are row-concatenated, self rows first).
\<close>

definition add_experiments :: "ExperimentData \<Rightarrow> ExperimentData \<Rightarrow> ExperimentData" where
  "add_experiments L experiment_sample =
     L\<lparr>input_data := Data_add (input_data L) (input_data experiment_sample),
       output_data := Data_add (output_data L) (output_data experiment_sample),
       jobs := jobs L @ jobs experiment_sample\<rparr>"

text \<open>
  The optimizer protocol \<open>_Optimizer\<close> of experimentdata.py: its population and the
  methods \<open>_iterate\<close> calls. Each method may raise and may change the optimizer's state
  \<open>'o\<close>; \<open>update_step\<close> is handed the data generator and may run it.
\<close>

record ('o, 'g) Optimizer =
  population :: int
  set_x0 :: "ExperimentData \<Rightarrow> 'o \<Rightarrow> py_exception + 'o"
  check_number_of_datapoints :: "'o \<Rightarrow> py_exception + 'o"
  construct_model :: "'g \<Rightarrow> 'o \<Rightarrow> py_exception + 'o"
  update_step :: "'g \<Rightarrow> 'o \<Rightarrow> (py_exception + ExperimentData) \<times> 'o \<times> 'g"
  optimizer_set_data :: "ExperimentData \<Rightarrow> 'o \<Rightarrow> py_exception + 'o"
  reset :: "'o \<Rightarrow> py_exception + 'o"

text \<open>
  The \<open>for\<close> loop of \<open>_iterate\<close>, one equation per remaining round. The call
  \<open>self.run(data_generator, mode='sequential', kwargs=kwargs)\<close> is the sequential
  driver. An exception ends the loop with the ledger as it is then.
\<close>

fun iterate_rounds ::
  "nat \<Rightarrow> ('o, 'g) Optimizer \<Rightarrow> 'g DataGenerator \<Rightarrow> 'o \<Rightarrow> 'g \<Rightarrow> ExperimentData \<Rightarrow>
   py_exception option \<times> ExperimentData \<times> 'o \<times> 'g" where
  "iterate_rounds 0 optimizer dg opt g L = (None, L, opt, g)"
| "iterate_rounds (Suc k) optimizer dg opt g L =
     (case update_step optimizer g opt of
        (Inl e, opt1, g1) \<Rightarrow> (Some e, L, opt1, g1)
      | (Inr new_samples, opt1, g1) \<Rightarrow>
          (let L1 = add_experiments L new_samples in
           case run_sequential dg g1 L1 of
             (Some e, g2, L2) \<Rightarrow> (Some e, L2, opt1, g2)
           | (None, g2, L2) \<Rightarrow>
               (case optimizer_set_data optimizer L2 opt1 of
                  Inl e \<Rightarrow> (Some e, L2, opt1, g2)
                | Inr opt2 \<Rightarrow> iterate_rounds k optimizer dg opt2 g2 L2)))"

text \<open>
  \<open>_iterate\<close>. \<open>range(n)\<close> runs \<open>n\<close> times, no time for \<open>n \<le> 0\<close>.
\<close>

definition iterate ::
  "('o, 'g) Optimizer \<Rightarrow> 'g DataGenerator \<Rightarrow> int \<Rightarrow> 'o \<Rightarrow> 'g \<Rightarrow> ExperimentData \<Rightarrow>
   py_exception option \<times> ExperimentData \<times> 'o \<times> 'g" where
  "iterate optimizer dg iterations opt g L =
     (case set_x0 optimizer L opt of
        Inl e \<Rightarrow> (Some e, L, opt, g)
      | Inr opt1 \<Rightarrow>
     (case check_number_of_datapoints optimizer opt1 of
        Inl e \<Rightarrow> (Some e, L, opt1, g)
      | Inr opt2 \<Rightarrow>
     (case construct_model optimizer g opt2 of
        Inl e \<Rightarrow> (Some e, L, opt2, g)
      | Inr opt3 \<Rightarrow>
     (case number_of_updates iterations (population optimizer) of
        Inl e \<Rightarrow> (Some e, L, opt3, g)
      | Inr n \<Rightarrow>
     (case iterate_rounds (nat n) optimizer dg opt3 g L of
        (Some e, L1, opt4, g1) \<Rightarrow> (Some e, L1, opt4, g1)
      | (None, L1, opt4, g1) \<Rightarrow>
     (case number_of_overiterations iterations (population optimizer) of
        Inl e \<Rightarrow> (Some e, L1, opt4, g1)
      | Inr k \<Rightarrow>
     (let L2 = remove_rows_bottom L1 k in
      case reset optimizer opt4 of
        Inl e \<Rightarrow> (Some e, L2, opt4, g1)
      | Inr opt5 \<Rightarrow> (None, L2, opt5, g1))))))))"

text \<open>
  A batch of three open rows, and an optimizer of population 3 whose \<open>update_step\<close>
  proposes that batch in every round and whose other methods do nothing.
\<close>

definition batch3 :: ExperimentData where
  "batch3 = \<lparr>filename = ''experimentdata'',
     input_data = \<lparr>columns = [''x''], rows = [[Number 3], [Number 4], [Number 5]]\<rparr>,
     output_data = \<lparr>columns = [''y''], rows = [[NaN], [NaN], [NaN]]\<rparr>,
     jobs = [OPEN, OPEN, OPEN],
     domain = [(''x'', ContinuousParameter)]\<rparr>"

definition opt_demo :: "(unit, unit) Optimizer" where
  "opt_demo = \<lparr>population = 3,
     set_x0 = (\<lambda>L opt. Inr opt),
     check_number_of_datapoints = (\<lambda>opt. Inr opt),
     construct_model = (\<lambda>g opt. Inr opt),
     update_step = (\<lambda>g opt. (Inr batch3, opt, g)),
     optimizer_set_data = (\<lambda>L opt. Inr opt),
     reset = (\<lambda>opt. Inr opt)\<rparr>"

section \<open>The parallel driver\<close>

text \<open>
  The first loop of \<open>_run_multiprocessing\<close>: rows are claimed until \<open>NoOpenJobsError\<close>,
  the samples collected in the order of the claims.
\<close>

function claim_all ::
  "ExperimentData \<Rightarrow> py_exception option \<times> ExperimentSample list \<times> ExperimentData" where
  "claim_all L =
     (case access_open_job_data L of
        (Inl e, L1) \<Rightarrow> (if e = NoOpenJobsError then (None, [], L1) else (Some e, [], L1))
      | (Inr experiment_sample, L1) \<Rightarrow>
          (case claim_all L1 of (r, options, L2) \<Rightarrow> (r, experiment_sample # options, L2)))"
  by pat_completeness auto

text \<open>
  \<open>pool.starmap(f, options)\<close>: every worker runs the generator on its own copy, so the
  state the parent holds does not change. The call returns the results in the order of
  the options, or raises what a worker raised and returns nothing; with several failing
  workers the model takes the first in that order.
\<close>

fun pool_starmap ::
  "'g DataGenerator \<Rightarrow> 'g \<Rightarrow> ExperimentSample list \<Rightarrow> py_exception + ExperimentSample list" where
  "pool_starmap dg g [] = Inr []"
| "pool_starmap dg g (s # options) =
     (case fst (dg g s) of
        Inl e \<Rightarrow> Inl e
      | Inr s' \<Rightarrow> (case pool_starmap dg g options of Inl e \<Rightarrow> Inl e | Inr rs \<Rightarrow> Inr (s' # rs)))"

text \<open>The last loop: every returned sample is committed; a raise leaves the loop.\<close>

fun commit_all ::
  "ExperimentData \<Rightarrow> ExperimentSample list \<Rightarrow> py_exception option \<times> ExperimentData" where
  "commit_all L [] = (None, L)"
| "commit_all L (s # samples) =
     (case set_experiment_sample L s of
        (Some e, L1) \<Rightarrow> (Some e, L1)
      | (None, L1) \<Rightarrow> commit_all L1 samples)"

text \<open>\<open>_run_multiprocessing\<close>: no \<open>try\<close> around the pool or the commits.\<close>

definition run_multiprocessing ::
  "'g DataGenerator \<Rightarrow> 'g \<Rightarrow> ExperimentData \<Rightarrow> py_exception option \<times> ExperimentData" where
  "run_multiprocessing dg g L =
     (case claim_all L of
        (Some e, options, L1) \<Rightarrow> (Some e, L1)
      | (None, options, L1) \<Rightarrow>
          (case pool_starmap dg g options of
             Inl e \<Rightarrow> (Some e, L1)
           | Inr experiment_samples \<Rightarrow> commit_all L1 experiment_samples))"

section \<open>Saving result objects (\<open>_io.py\<close>)\<close>

text \<open>
  The runtime type of a value, \<open>type(object)\<close>: the five classes the table names, and
  any other class by its name (a subclass of a listed class is another class). A value is
  its type and its content.
\<close>

datatype pytype =
  np_ndarray | pd_DataFrame | pd_Series | xr_DataArray | xr_Dataset | other_type string

record pyobject =
  py_type :: pytype
  py_content :: string

text \<open>The storage classes and their \<open>suffix\<close> attribute.\<close>

datatype Store = PickleStore | NumpyStore | PandasStore | XarrayStore

fun suffix :: "Store \<Rightarrow> string" where
  "suffix PickleStore = ''.pkl''"
| "suffix NumpyStore = ''.npy''"
| "suffix PandasStore = ''.csv''"
| "suffix XarrayStore = ''.nc''"

definition STORE_TYPE_MAPPING :: "(pytype \<times> Store) list" where
  "STORE_TYPE_MAPPING =
     [(np_ndarray, NumpyStore),
      (pd_DataFrame, PandasStore),
      (pd_Series, PandasStore),
      (xr_DataArray, XarrayStore),
      (xr_Dataset, XarrayStore)]"

text \<open>
  The library calls behind the storage classes: \<open>open(file, 'wb')\<close>, \<open>pickle.dump\<close>,
  \<open>np.save\<close>, \<open>DataFrame.to_csv\<close> and \<open>to_netcdf\<close>. They are not code of the
  repository; each is a parameter that says what the call raises (\<open>None\<close>: it returns).
  The file a storage object writes is \<open>(experimentdata_directory / path).with_suffix(suffix)\<close>,
  named here by its three parts: directory, path and suffix.
\<close>

record libraries =
  builtin_open :: "string \<Rightarrow> string \<Rightarrow> string \<Rightarrow> py_exception option"
  pickle_dump :: "pyobject \<Rightarrow> py_exception option"
  np_save :: "string \<Rightarrow> string \<Rightarrow> string \<Rightarrow> pyobject \<Rightarrow> py_exception option"
  to_csv :: "pyobject \<Rightarrow> string \<Rightarrow> string \<Rightarrow> string \<Rightarrow> py_exception option"
  to_netcdf :: "pyobject \<Rightarrow> string \<Rightarrow> string \<Rightarrow> string \<Rightarrow> py_exception option"

text \<open>
  The \<open>store\<close> method of each storage class, for a storage object built from the value
  and the path. \<open>PickleStore.store\<close> opens the file for writing and then dumps the
  value into it; the others are one library call. None of them catches anything: what the
  library raises leaves the method.
\<close>

fun Store_store ::
  "libraries \<Rightarrow> Store \<Rightarrow> pyobject \<Rightarrow> string \<Rightarrow> string \<Rightarrow> py_exception option" where
  "Store_store lib PickleStore object dir path =
     (case builtin_open lib dir path (suffix PickleStore) of
        Some e \<Rightarrow> Some e
      | None \<Rightarrow> pickle_dump lib object)"
| "Store_store lib NumpyStore object dir path = np_save lib dir path (suffix NumpyStore) object"
| "Store_store lib PandasStore object dir path = to_csv lib object dir path (suffix PandasStore)"
| "Store_store lib XarrayStore object dir path = to_netcdf lib object dir path (suffix XarrayStore)"

text \<open>
  What \<open>save_object\<close> leaves behind: a debug record in the log, and the value stored
  by a storage class under a directory and a path (recorded when \<open>store\<close> has returned).
\<close>

datatype io_event =
    logger_debug string
  | storage_store Store pyobject string string

fun type_name :: "pytype \<Rightarrow> string" where
  "type_name np_ndarray = ''numpy.ndarray''"
| "type_name pd_DataFrame = ''pandas.core.frame.DataFrame''"
| "type_name pd_Series = ''pandas.core.series.Series''"
| "type_name xr_DataArray = ''xarray.core.dataarray.DataArray''"
| "type_name xr_Dataset = ''xarray.core.dataset.Dataset''"
| "type_name (other_type n) = n"

definition not_supported_message :: "pytype \<Rightarrow> string" where
  "not_supported_message t =
     ''Object type '' @ type_name t @
     '' is not natively supported. The default pickle storage method will be used.''"

text \<open>
  \<open>save_object\<close>. With a store method the storage object is built and the function
  returns \<open>None\<close> at once, storing nothing. Without one, the type is looked up in the
  table (\<open>not in\<close>, then the subscript: one lookup here); for a type that is not in it
  the debug record is logged before \<open>storage.store()\<close> is called. That call is not
  inside a \<open>try\<close>: what it raises leaves \<open>save_object\<close> before
  \<open>return storage.suffix\<close>. The result is what the function raised or returned, and the
  events, appended to those before.
\<close>

definition save_object ::
  "libraries \<Rightarrow> pyobject \<Rightarrow> string \<Rightarrow> string \<Rightarrow> Store option \<Rightarrow> io_event list \<Rightarrow>
   (py_exception + string option) \<times> io_event list" where
  "save_object lib object path experimentdata_directory store_method io =
     (case store_method of
        Some m \<Rightarrow> (Inr None, io)
      | None \<Rightarrow>
          (let object_type = py_type object in
           case map_of STORE_TYPE_MAPPING object_type of
             None \<Rightarrow>
               (let io1 = io @ [logger_debug (not_supported_message object_type)] in
                case Store_store lib PickleStore object experimentdata_directory path of
                  Some e \<Rightarrow> (Inl e, io1)
                | None \<Rightarrow>
                    (Inr (Some (suffix PickleStore)),
                     io1 @ [storage_store PickleStore object experimentdata_directory path]))
           | Some cls \<Rightarrow>
               (case Store_store lib cls object experimentdata_directory path of
                  Some e \<Rightarrow> (Inl e, io)
                | None \<Rightarrow>
                    (Inr (Some (suffix cls)),
                     io @ [storage_store cls object experimentdata_directory path]))))"

text \<open>
  Libraries on which every call returns, and libraries as Python has them for one value:
  a function written as a lambda, which \<open>pickle.dump\<close> refuses with a \<open>PicklingError\<close>.
\<close>

definition lib_ok :: libraries where
  "lib_ok = \<lparr>builtin_open = (\<lambda>dir path sfx. None), pickle_dump = (\<lambda>object. None),
     np_save = (\<lambda>dir path sfx object. None), to_csv = (\<lambda>object dir path sfx. None),
     to_netcdf = (\<lambda>object dir path sfx. None)\<rparr>"

definition a_lambda :: pyobject where
  "a_lambda = \<lparr>py_type = other_type ''function'', py_content = ''lambda x: x + 1''\<rparr>"

definition lib_lambda :: libraries where
  "lib_lambda = lib_ok\<lparr>pickle_dump :=
     (\<lambda>object. if object = a_lambda
               then Some (PicklingError ''Can't pickle <function <lambda>>'') else None)\<rparr>"

section \<open>The persisted ledger\<close>

text \<open>
  Modelled from the spec: the \<open>store\<close> and \<open>from_file\<close> methods of \<open>_Data\<close>,
  \<open>_JobQueue\<close> and \<open>Domain\<close> are not under src/. Spec sections 3 and 6: a persisted
  ledger is four independent files under a shared base name, each independently loadable;
  spec 4.1: reloading a job queue restores the exact status of every row. So a disk holds,
  for each of the three kinds, the files of that kind by the path they were stored under;
  storing writes the value, loading gives what was stored, and a path with no file of the
  kind is a \<open>FileNotFoundError\<close>. The text of the files (csv, pickle, json) is outside
  the model.
\<close>

record disk =
  data_files :: "string \<Rightarrow> Data option"
  jobs_files :: "string \<Rightarrow> JobQueue option"
  domain_files :: "string \<Rightarrow> Domain option"

definition Data_store :: "Data \<Rightarrow> string \<Rightarrow> disk \<Rightarrow> disk" where
  "Data_store d path fs = fs\<lparr>data_files := (data_files fs)(path \<mapsto> d)\<rparr>"

definition Data_from_file :: "disk \<Rightarrow> string \<Rightarrow> py_exception + Data" where
  "Data_from_file fs path =
     (case data_files fs path of None \<Rightarrow> Inl (FileNotFoundError path) | Some d \<Rightarrow> Inr d)"

definition JobQueue_store :: "JobQueue \<Rightarrow> string \<Rightarrow> disk \<Rightarrow> disk" where
  "JobQueue_store js path fs = fs\<lparr>jobs_files := (jobs_files fs)(path \<mapsto> js)\<rparr>"

definition JobQueue_from_file :: "disk \<Rightarrow> string \<Rightarrow> py_exception + JobQueue" where
  "JobQueue_from_file fs path =
     (case jobs_files fs path of None \<Rightarrow> Inl (FileNotFoundError path) | Some js \<Rightarrow> Inr js)"

definition Domain_store :: "Domain \<Rightarrow> string \<Rightarrow> disk \<Rightarrow> disk" where
  "Domain_store schema path fs = fs\<lparr>domain_files := (domain_files fs)(path \<mapsto> schema)\<rparr>"

definition Domain_from_file :: "disk \<Rightarrow> string \<Rightarrow> py_exception + Domain" where
  "Domain_from_file fs path =
     (case domain_files fs path of None \<Rightarrow> Inl (FileNotFoundError path) | Some schema \<Rightarrow> Inr schema)"

text \<open>
  Modelled from the spec: \<open>_JobQueue.from_data\<close> is not under src/. Spec section 3: one
  status per row; the queue built from a store has the given status for each of its rows.
\<close>

definition JobQueue_from_data :: "Data \<Rightarrow> Status \<Rightarrow> JobQueue" where
  "JobQueue_from_data d val = replicate (length (rows d)) val"

section \<open>Constructing a ledger\<close>

text \<open>
  What \<open>__init__\<close> may be given as input or output data (the union \<open>DataTypes\<close>,
  \<open>None\<close>, or anything else) and as domain. A DataFrame is a table; an array is its
  rows.
\<close>

datatype DataTypes =
    data_None
  | data_Data Data
  | data_DataFrame Data
  | data_Path string
  | data_str string
  | data_ndarray "cell list list"
  | data_other

datatype DomainArg = domain_None | domain_Domain Domain | domain_Path string | domain_other

text \<open>
  Constructors of \<open>_Data\<close> and \<open>Domain\<close> that are not under src/ and of which the spec
  says nothing: they are parameters, and may return any store or raise.
\<close>

record externals =
  Data_from_dataframe :: "Data \<Rightarrow> py_exception + Data"
  Data_from_csv :: "disk \<Rightarrow> string \<Rightarrow> py_exception + Data"
  Data_from_numpy :: "cell list list \<Rightarrow> py_exception + Data"
  Domain_from_data :: "Data \<Rightarrow> py_exception + Domain"
  Data_from_no_domain :: "DomainArg \<Rightarrow> py_exception + Data"

text \<open>\<open>Path.suffix\<close>: the last dot of the final component and what follows it, unless
  that dot is the first or the last character of the component.\<close>

definition path_suffix :: "string \<Rightarrow> string" where
  "path_suffix p =
     (let name = rev (takeWhile (\<lambda>c. c \<noteq> CHR ''/'') (rev p));
          ext = rev (takeWhile (\<lambda>c. c \<noteq> CHR ''.'') (rev name))
      in if CHR ''.'' \<in> set name \<and> ext \<noteq> [] \<and> length ext + 1 < length name
         then CHR ''.'' # ext else [])"

text \<open>
  \<open>_construct_data\<close>. The branch for \<open>Path\<close> and \<open>str\<close> reads \<open>data.suffix\<close>, which a
  \<open>str\<close> does not have.
\<close>

definition construct_data :: "externals \<Rightarrow> disk \<Rightarrow> DataTypes \<Rightarrow> py_exception + Data" where
  "construct_data ext fs data =
     (case data of
        data_None \<Rightarrow> Inr Data_empty
      | data_Data d \<Rightarrow> Inr d
      | data_DataFrame df \<Rightarrow> Data_from_dataframe ext df
      | data_Path p \<Rightarrow>
          (if path_suffix p = ''.csv'' then Data_from_csv ext fs p else Data_from_file fs p)
      | data_str s \<Rightarrow> Inl (AttributeError ''suffix'')
      | data_ndarray a \<Rightarrow> Data_from_numpy ext a
      | data_other \<Rightarrow> Inl (TypeError ''Data must be of type _Data, pd.DataFrame, np.ndarray, Path or str''))"

text \<open>\<open>_construct_domain\<close>; \<open>Domain()\<close> is the schema with no parameter.\<close>

definition construct_domain ::
  "externals \<Rightarrow> disk \<Rightarrow> Data \<Rightarrow> DomainArg \<Rightarrow> py_exception + Domain" where
  "construct_domain ext fs input domain_arg =
     (case domain_arg of
        domain_Domain schema \<Rightarrow> Inr schema
      | domain_Path p \<Rightarrow> Domain_from_file fs p
      | domain_None \<Rightarrow>
          (if Data_is_empty input then Inr [] else Domain_from_data ext input)
      | domain_other \<Rightarrow> Inl (TypeError ''Domain must be of type Domain or None''))"

text \<open>
  Modelled from the spec: \<open>_Data.from_domain\<close> is not under src/. For a schema it is the
  store with the schema's columns and no row (spec section 3: the schema maps the input
  column names). \<open>__init__\<close> passes its argument as it was given, which need not be a
  schema; what happens then is a parameter.
\<close>

definition Data_from_domain :: "externals \<Rightarrow> DomainArg \<Rightarrow> py_exception + Data" where
  "Data_from_domain ext domain_arg =
     (case domain_arg of
        domain_Domain schema \<Rightarrow> Inr \<lparr>columns = map fst schema, rows = []\<rparr>
      | _ \<Rightarrow> Data_from_no_domain ext domain_arg)"

text \<open>
  \<open>ExperimentData.__init__\<close>, in the order of the source. A \<open>jobs\<close> argument that is a
  \<open>Path\<close> or a \<open>str\<close> has the queue read from that file and assigned; the next
  statement assigns the queue built from the input data.
\<close>

definition ExperimentData_init ::
  "externals \<Rightarrow> disk \<Rightarrow> DomainArg \<Rightarrow> DataTypes \<Rightarrow> DataTypes \<Rightarrow> string option \<Rightarrow> string \<Rightarrow>
   py_exception + ExperimentData" where
  "ExperimentData_init ext fs domain_arg input_arg output_arg jobs_arg filename_arg =
     (case construct_data ext fs input_arg of Inl e \<Rightarrow> Inl e | Inr input0 \<Rightarrow>
      case construct_data ext fs output_arg of Inl e \<Rightarrow> Inl e | Inr output0 \<Rightarrow>
      let output1 = (if Data_is_empty output0 then Data_from_indices (Data_indices input0)
                     else output0);
          job_value = (if Data_is_empty output0 then OPEN else FINISHED)
      in
      case construct_domain ext fs input0 domain_arg of Inl e \<Rightarrow> Inl e | Inr schema \<Rightarrow>
      case (if Data_is_empty input0 then Data_from_domain ext domain_arg else Inr input0) of
        Inl e \<Rightarrow> Inl e | Inr input1 \<Rightarrow>
      case (case jobs_arg of None \<Rightarrow> Inr [] | Some p \<Rightarrow> JobQueue_from_file fs p) of
        Inl e \<Rightarrow> Inl e | Inr jobs0 \<Rightarrow>
      Inr \<lparr>filename = filename_arg, input_data = input1, output_data = output1,
           jobs = JobQueue_from_data input1 job_value, domain = schema\<rparr>)"

section \<open>Storing and loading a ledger\<close>

text \<open>\<open>store\<close>: the four files, in the order of the source.\<close>

definition store :: "ExperimentData \<Rightarrow> string option \<Rightarrow> disk \<Rightarrow> disk" where
  "store L filename_arg fs =
     (let fname = (case filename_arg of None \<Rightarrow> filename L | Some f \<Rightarrow> f) in
      Domain_store (domain L) (fname @ ''_domain'')
        (JobQueue_store (jobs L) (fname @ ''_jobs'')
          (Data_store (output_data L) (fname @ ''_output'')
            (Data_store (input_data L) (fname @ ''_data'') fs))))"

fun is_FileNotFoundError :: "py_exception \<Rightarrow> bool" where
  "is_FileNotFoundError (FileNotFoundError m) = True"
| "is_FileNotFoundError _ = False"

text \<open>
  \<open>_from_file_attempt\<close>, called without a \<open>text_io\<close> stream. The inner \<open>try\<close> replaces
  a missing output file by the unset output rows of the input's indices; the outer one
  turns any \<open>FileNotFoundError\<close> of the body into the one that names the data file.
\<close>

definition from_file_attempt_body ::
  "externals \<Rightarrow> disk \<Rightarrow> string \<Rightarrow> py_exception + ExperimentData" where
  "from_file_attempt_body ext fs fname =
     (case Domain_from_file fs (fname @ ''_domain'') of Inl e \<Rightarrow> Inl e | Inr schema \<Rightarrow>
      case ExperimentData_init ext fs (domain_Domain schema) data_None data_None None fname of
        Inl e \<Rightarrow> Inl e | Inr experimentdata \<Rightarrow>
      case Data_from_file fs (fname @ ''_data'') of Inl e \<Rightarrow> Inl e | Inr input \<Rightarrow>
      case (case Data_from_file fs (fname @ ''_output'') of
              Inl e \<Rightarrow> (if is_FileNotFoundError e
                         then Inr (Data_from_indices (Data_indices input)) else Inl e)
            | Inr output \<Rightarrow> Inr output) of
        Inl e \<Rightarrow> Inl e | Inr output \<Rightarrow>
      case JobQueue_from_file fs (fname @ ''_jobs'') of Inl e \<Rightarrow> Inl e | Inr js \<Rightarrow>
      Inr (experimentdata\<lparr>input_data := input, output_data := output, jobs := js\<rparr>))"

definition from_file_attempt ::
  "externals \<Rightarrow> disk \<Rightarrow> string \<Rightarrow> py_exception + ExperimentData" where
  "from_file_attempt ext fs fname =
     (case from_file_attempt_body ext fs fname of
        Inl e \<Rightarrow>
          (if is_FileNotFoundError e
           then Inl (FileNotFoundError (''Cannot find the file '' @ fname @ ''_data.csv.''))
           else Inl e)
      | Inr experimentdata \<Rightarrow> Inr experimentdata)"

text \<open>
  \<open>from_file\<close>: on \<open>FileNotFoundError\<close> the load is tried again under hydra's original
  working directory, if hydra has one (\<open>get_original_cwd\<close> raises \<open>ValueError\<close>
  otherwise). \<open>Path(cwd) / filename\<close> is \<open>filename\<close> itself when that is absolute.
\<close>

definition path_div :: "string \<Rightarrow> string \<Rightarrow> string" where
  "path_div a b = (if b \<noteq> [] \<and> hd b = CHR ''/'' then b else a @ ''/'' @ b)"

definition from_file ::
  "externals \<Rightarrow> disk \<Rightarrow> string option \<Rightarrow> string \<Rightarrow> py_exception + ExperimentData" where
  "from_file ext fs original_cwd fname =
     (case from_file_attempt ext fs fname of
        Inr experimentdata \<Rightarrow> Inr experimentdata
      | Inl e \<Rightarrow>
          (if is_FileNotFoundError e
           then (case original_cwd of
                   None \<Rightarrow> Inl (FileNotFoundError (''Cannot find the file '' @ fname @ '' !''))
                 | Some cwd \<Rightarrow> from_file_attempt ext fs (path_div cwd fname))
           else Inl e))"

text \<open>
  A disk with the schema, the input table and the job queue of a one-row ledger whose row
  is finished, and no output table.
\<close>

definition fs_no_output :: disk where
  "fs_no_output =
     \<lparr>data_files = [''exp_data'' \<mapsto> \<lparr>columns = [''x''], rows = [[Number 1]]\<rparr>],
      jobs_files = [''exp_jobs'' \<mapsto> [FINISHED]],
      domain_files = [''exp_domain'' \<mapsto> [(''x'', ContinuousParameter)]]\<rparr>"

text \<open>An empty disk, and stand-ins for the constructors that are parameters.\<close>

definition fs_empty :: disk where
  "fs_empty = \<lparr>data_files = Map.empty, jobs_files = Map.empty, domain_files = Map.empty\<rparr>"

definition ext_demo :: externals where
  "ext_demo = \<lparr>Data_from_dataframe = Inr, Data_from_csv = (\<lambda>fs p. Inr Data_empty),
     Data_from_numpy = (\<lambda>a. Inr Data_empty), Domain_from_data = (\<lambda>d. Inr []),
     Data_from_no_domain = (\<lambda>a. Inr Data_empty)\<rparr>"

section \<open>Helper facts\<close>

lemma ceiling_div_int:
  fixes N P :: int
  assumes "0 < P"
  shows "\<lceil>real_of_int N / real_of_int P\<rceil> = N div P + (if N mod P > 0 then 1 else 0)"
proof -
  have "\<lceil>real_of_int N / real_of_int P\<rceil> = - ((- N) div P)"
    by (rule ceiling_divide_eq_div)
  also have "\<dots> = N div P + (if N mod P > 0 then 1 else 0)"
  proof (cases "N mod P = 0")
    case True
    then show ?thesis using assms by (simp add: zdiv_zminus1_eq_if)
  next
    case False
    moreover have "0 \<le> N mod P" using assms by simp
    ultimately have "0 < N mod P" by linarith
    then show ?thesis using assms False by (simp add: zdiv_zminus1_eq_if)
  qed
  finally show ?thesis .
qed

subsection \<open>The job queue and the termination of the sweep\<close>

lemma get_open_job_Inr:
  "get_open_job js = Inr i \<Longrightarrow> i < length js \<and> js ! i = OPEN \<and> (\<forall>j<i. js ! j \<noteq> OPEN)"
proof (induction js arbitrary: i)
  case Nil
  then show ?case by simp
next
  case (Cons s js)
  show ?case
  proof (cases "s = OPEN")
    case True
    with Cons.prems show ?thesis by simp
  next
    case False
    with Cons.prems obtain k where k: "get_open_job js = Inr k" "i = Suc k"
      by (auto split: sum.splits)
    from Cons.IH [OF k(1)] False k(2) show ?thesis
      by (auto simp: nth_Cons split: nat.splits)
  qed
qed

lemma get_open_job_Inl:
  "get_open_job js = Inl e \<Longrightarrow> e = NoOpenJobsError \<and> OPEN \<notin> set js"
  by (induction js) (auto split: if_splits sum.splits)

lemma get_open_job_no_open:
  "OPEN \<notin> set js \<Longrightarrow> get_open_job js = Inl NoOpenJobsError"
  by (induction js) auto

lemma count_open_update_le:
  "v \<noteq> OPEN \<Longrightarrow> count_open (js[i := v]) \<le> count_open js"
  unfolding count_open_def
  by (induction js arbitrary: i) (auto split: nat.splits simp: le_SucI)

lemma count_open_update_less:
  "i < length js \<Longrightarrow> js ! i = OPEN \<Longrightarrow> v \<noteq> OPEN \<Longrightarrow> count_open (js[i := v]) < count_open js"
proof (induction js arbitrary: i)
  case Nil
  then show ?case by simp
next
  case (Cons s js)
  show ?case
  proof (cases i)
    case 0
    with Cons.prems show ?thesis by (simp add: count_open_def)
  next
    case (Suc k)
    with Cons.prems have "k < length js" "js ! k = OPEN" by simp_all
    from Cons.IH [OF this Cons.prems(3)] Suc show ?thesis
      by (simp add: count_open_def)
  qed
qed

lemma jobs_set_experiment_sample:
  "set_experiment_sample L s = (r, L') \<Longrightarrow>
     jobs L' = jobs L \<or> jobs L' = (jobs L)[jobnumber s := FINISHED]"
  by (auto simp: set_experiment_sample_def mark_as_finished_def split: prod.splits option.splits)

lemma jobs_set_error:
  "set_error L i = (r, L') \<Longrightarrow> jobs L' = (jobs L)[i := ERROR]"
  by (auto simp: set_error_def mark_as_error_def Let_def split: sum.splits)

lemma access_open_job_data_Inr:
  "access_open_job_data L = (Inr s, L1) \<Longrightarrow>
     jobnumber s < length (jobs L) \<and> jobs L ! jobnumber s = OPEN \<and>
     jobs L1 = (jobs L)[jobnumber s := IN_PROGRESS]"
  by (auto simp: access_open_job_data_def Let_def mark_as_in_progress_def get_experiment_sample_def
      split: sum.splits dest: get_open_job_Inr)

lemma count_open_access:
  "(Inr s, L1) = access_open_job_data L \<Longrightarrow> count_open (jobs L1) < count_open (jobs L)"
  using access_open_job_data_Inr [of L s L1] by (simp add: count_open_update_less)

lemma count_open_set_error:
  "(r, L') = set_error L i \<Longrightarrow> count_open (jobs L') \<le> count_open (jobs L)"
  using jobs_set_error [of L i r L'] by (simp add: count_open_update_le)

lemma count_open_set_experiment_sample:
  "(r, L') = set_experiment_sample L s \<Longrightarrow> count_open (jobs L') \<le> count_open (jobs L)"
  using jobs_set_experiment_sample [of L s r L'] by (auto simp: count_open_update_le)

termination run_sequential
proof (relation "measure (\<lambda>(dg, g, L). count_open (jobs L))", goal_cases)
  case 1
  show ?case by simp
next
  case (2 dg g L x y b xa ya a xb yb)
  then show ?case
    using count_open_access [of b y L] count_open_set_error [of xb yb y "jobnumber b"] by simp
next
  case (3 dg g L x y b xa ya ba xb yb)
  then show ?case
    using count_open_access [of b y L] count_open_set_experiment_sample [of xb yb y ba] by simp
next
  case (4 dg g L x y b xa ya ba xb yb x2 xc yc)
  then show ?case
    using count_open_access [of b y L] count_open_set_experiment_sample [of xb yb y ba]
      count_open_set_error [of xc yc yb "jobnumber b"] by simp
qed

text \<open>
  The defining equation of the sweep is recursive without a guard: it is unfolded by hand,
  never by the simplifier.
\<close>

declare run_sequential.simps [simp del]

subsection \<open>Point updates of the output store\<close>

lemma set_error_result:
  "set_error L index =
     (None, L\<lparr>jobs := (jobs L)[index := ERROR],
              output_data := (if index < length (rows (output_data L))
                then (output_data L)\<lparr>rows := (rows (output_data L))[index :=
                        map (\<lambda>_. Text ''ERROR'') (rows (output_data L) ! index)]\<rparr>
                else output_data L)\<rparr>)"
  by (simp add: set_error_def set_data_def mark_as_error_def Let_def)

lemma get_data_dict_set_all:
  "get_data_dict (if index < length (rows d)
      then d\<lparr>rows := (rows d)[index := map (\<lambda>_. v) (rows d ! index)]\<rparr> else d) index =
   map (\<lambda>(c, _). (c, v)) (get_data_dict d index)"
  by (simp add: get_data_dict_def zip_map2 split_def)

lemma set_data_Inl:
  "set_data d i v c = Inl e \<Longrightarrow> is_Exception e"
  by (cases c) (auto simp: set_data_def split: if_splits)

lemma set_data_Inr:
  "set_data d i v c = Inr d' \<Longrightarrow> length (rows d') = length (rows d) \<and> columns d' = columns d"
  by (cases c) (auto simp: set_data_def split: if_splits)

lemma set_items_exception:
  "set_items d i kvs = (Some e, d') \<Longrightarrow> is_Exception e"
proof (induction kvs arbitrary: d)
  case Nil
  then show ?case by simp
next
  case (Cons kv kvs)
  obtain c v where kv: "kv = (c, v)" by (cases kv)
  show ?case
  proof (cases "set_data d i v (Some c)")
    case (Inl e')
    with Cons.prems kv show ?thesis by (simp add: set_data_Inl)
  next
    case (Inr d1)
    with Cons.prems kv have "set_items d1 i kvs = (Some e, d')" by simp
    then show ?thesis by (rule Cons.IH)
  qed
qed

lemma set_items_rows:
  "set_items d i kvs = (r, d') \<Longrightarrow> length (rows d') = length (rows d) \<and> columns d' = columns d"
proof (induction kvs arbitrary: d)
  case Nil
  then show ?case by simp
next
  case (Cons kv kvs)
  obtain c v where kv: "kv = (c, v)" by (cases kv)
  show ?case
  proof (cases "set_data d i v (Some c)")
    case (Inl e')
    with Cons.prems kv show ?thesis by simp
  next
    case (Inr d1)
    with Cons.prems kv have "set_items d1 i kvs = (r, d')" by simp
    from Cons.IH [OF this] set_data_Inr [OF Inr] show ?thesis by simp
  qed
qed

lemma run_sequential_stop:
  "OPEN \<notin> set (jobs L) \<Longrightarrow> run_sequential dg g L = (None, g, L)"
  by (subst run_sequential.simps) (simp add: access_open_job_data_def get_open_job_no_open)

subsection \<open>One round of the sweep\<close>


lemma run_sequential_raised:
  assumes acc: "access_open_job_data L = (Inr s, L1)"
    and dg: "dg g s = (Inl e, g1)" and ex: "is_Exception e"
  shows "run_sequential dg g L = run_sequential dg g1 (snd (set_error L1 (jobnumber s)))"
  by (subst run_sequential.simps) (simp add: acc dg ex set_error_result)

lemma run_sequential_returned:
  assumes acc: "access_open_job_data L = (Inr s, L1)"
    and dg: "dg g s = (Inr s', g1)"
  shows "\<exists>L2 v. run_sequential dg g L = run_sequential dg g1 L2 \<and>
           jobs L2 = (jobs L1)[jobnumber s' := v] \<and> (v = FINISHED \<or> v = ERROR) \<or>
         (\<exists>L2. run_sequential dg g L = run_sequential dg g1 L2 \<and>
           jobs L2 = (jobs L1)[jobnumber s := ERROR])"
proof (cases "set_experiment_sample L1 s'")
  case (Pair r L2)
  show ?thesis
  proof (cases r)
    case None
    with Pair have j: "jobs L2 = (jobs L1)[jobnumber s' := FINISHED]"
      by (auto simp: set_experiment_sample_def mark_as_finished_def split: prod.splits option.splits)
    have "run_sequential dg g L = run_sequential dg g1 L2"
      by (subst run_sequential.simps) (simp add: acc dg Pair None)
    with j show ?thesis by blast
  next
    case (Some e)
    with Pair have ex: "is_Exception e" and j: "jobs L2 = jobs L1"
      by (auto simp: set_experiment_sample_def split: prod.splits option.splits
          dest: set_items_exception)
    have "run_sequential dg g L = run_sequential dg g1 (snd (set_error L2 (jobnumber s)))"
      by (subst run_sequential.simps) (simp add: acc dg Pair Some ex set_error_result)
    moreover have "jobs (snd (set_error L2 (jobnumber s))) = (jobs L1)[jobnumber s := ERROR]"
      by (simp add: set_error_result j)
    ultimately show ?thesis by blast
  qed
qed

lemma run_sequential_step:
  assumes own: "returns_own_job dg" and exc: "raises_Exception_only dg"
    and acc: "access_open_job_data L = (Inr s, L1)"
  shows "\<exists>g1 L2 v. run_sequential dg g L = run_sequential dg g1 L2 \<and>
           jobs L2 = (jobs L)[jobnumber s := v] \<and> (v = FINISHED \<or> v = ERROR)"
proof (cases "dg g s")
  case (Pair out g1)
  note a = access_open_job_data_Inr [OF acc]
  show ?thesis
  proof (cases out)
    case (Inl e)
    with Pair exc have ex: "is_Exception e" by (auto simp: raises_Exception_only_def)
    from run_sequential_raised [OF acc _ ex] Pair Inl
    have "run_sequential dg g L = run_sequential dg g1 (snd (set_error L1 (jobnumber s)))" by simp
    moreover have "jobs (snd (set_error L1 (jobnumber s))) = (jobs L)[jobnumber s := ERROR]"
      using a by (simp add: set_error_result)
    ultimately show ?thesis by blast
  next
    case (Inr s')
    with Pair own have n: "jobnumber s' = jobnumber s" by (auto simp: returns_own_job_def)
    from run_sequential_returned [OF acc, of dg g s' g1] Pair Inr
    obtain L2 v where "run_sequential dg g L = run_sequential dg g1 L2"
      "jobs L2 = (jobs L1)[jobnumber s := v]" "v = FINISHED \<or> v = ERROR"
      using n by auto
    with a show ?thesis by (metis list_update_overwrite)
  qed
qed

lemma settled_refl:
  assumes "OPEN \<notin> set js"
  shows "settled js js"
proof -
  have "js ! i \<noteq> OPEN" if "i < length js" for i
    using assms nth_mem [OF that] by metis
  then show ?thesis by (simp add: settled_def)
qed

lemma settled_step:
  assumes "i < length js" "js ! i = OPEN" "v = FINISHED \<or> v = ERROR" "settled (js[i := v]) js'"
  shows "settled js js'"
  unfolding settled_def
proof (intro conjI allI impI)
  from assms(4) show "length js' = length js" by (simp add: settled_def)
next
  fix k assume k: "k < length js"
  from assms(4) k have s: "if js[i := v] ! k = OPEN then js' ! k = FINISHED \<or> js' ! k = ERROR
      else js' ! k = js[i := v] ! k"
    by (simp add: settled_def)
  show "if js ! k = OPEN then js' ! k = FINISHED \<or> js' ! k = ERROR else js' ! k = js ! k"
  proof (cases "k = i")
    case True
    with s assms(1,2,3) show ?thesis by auto
  next
    case False
    with s show ?thesis by simp
  qed
qed

lemma run_sequential_settled:
  assumes own: "returns_own_job dg" and exc: "raises_Exception_only dg"
  shows "fst (run_sequential dg g L) = None \<and>
         settled (jobs L) (jobs (snd (snd (run_sequential dg g L))))"
proof (induction "count_open (jobs L)" arbitrary: L g rule: less_induct)
  case less
  show ?case
  proof (cases "access_open_job_data L")
    case (Pair out L1)
    show ?thesis
    proof (cases out)
      case (Inl e)
      with Pair have "OPEN \<notin> set (jobs L)"
        by (auto simp: access_open_job_data_def Let_def split: sum.splits dest: get_open_job_Inl)
      then show ?thesis by (simp add: run_sequential_stop settled_refl)
    next
      case (Inr s)
      with Pair have acc: "access_open_job_data L = (Inr s, L1)" by simp
      note a = access_open_job_data_Inr [OF acc]
      from run_sequential_step [OF own exc acc, of g]
      obtain g1 L2 v where st: "run_sequential dg g L = run_sequential dg g1 L2"
        "jobs L2 = (jobs L)[jobnumber s := v]" "v = FINISHED \<or> v = ERROR" by blast
      have "count_open (jobs L2) < count_open (jobs L)"
        using a st(2,3) by (auto intro: count_open_update_less)
      from less [OF this, of g1]
      have "fst (run_sequential dg g1 L2) = None"
        "settled ((jobs L)[jobnumber s := v]) (jobs (snd (snd (run_sequential dg g1 L2))))"
        by (simp_all add: st(2))
      with settled_step [of "jobnumber s" "jobs L" v] a st(1,3) show ?thesis by simp
    qed
  qed
qed

lemmas eval_defs = access_open_job_data_def get_experiment_sample_def get_data_dict_def
  mark_as_in_progress_def mark_as_finished_def mark_as_error_def set_experiment_sample_def
  set_data_def set_error_def Let_def

subsection \<open>Row counts\<close>

lemma input_data_access:
  "access_open_job_data L = (r, L1) \<Longrightarrow> input_data L1 = input_data L"
  by (auto simp: access_open_job_data_def Let_def split: sum.splits)

lemma input_data_set_experiment_sample:
  "set_experiment_sample L s = (r, L1) \<Longrightarrow> input_data L1 = input_data L"
  by (auto simp: set_experiment_sample_def split: prod.splits option.splits)

lemma input_data_set_error:
  "input_data (snd (set_error L i)) = input_data L"
  by (simp add: set_error_result)

lemma run_sequential_input_data:
  "input_data (snd (snd (run_sequential dg g L))) = input_data L"
proof (induction "count_open (jobs L)" arbitrary: L g rule: less_induct)
  case less
  show ?case
  proof (cases "access_open_job_data L")
    case (Pair out L1)
    note i1 = input_data_access [OF Pair]
    show ?thesis
    proof (cases out)
      case (Inl e)
      with Pair i1 show ?thesis by (subst run_sequential.simps) simp
    next
      case (Inr s)
      with Pair have acc: "access_open_job_data L = (Inr s, L1)" by simp
      have c1: "count_open (jobs L1) < count_open (jobs L)"
        using count_open_access [of s L1 L] acc by simp
      obtain out2 g1 where dg: "dg g s = (out2, g1)" by (cases "dg g s")
      show ?thesis
      proof (cases out2)
        case (Inl e)
        show ?thesis
        proof (cases "is_Exception e")
          case True
          let ?L2 = "snd (set_error L1 (jobnumber s))"
          have "count_open (jobs ?L2) \<le> count_open (jobs L1)"
            using count_open_set_error [of "fst (set_error L1 (jobnumber s))" ?L2 L1 "jobnumber s"]
            by simp
          with c1 have "input_data (snd (snd (run_sequential dg g1 ?L2))) = input_data ?L2"
            by (intro less) simp
          moreover have "run_sequential dg g L = run_sequential dg g1 ?L2"
            using acc dg Inl True by (simp add: run_sequential_raised)
          ultimately show ?thesis using i1 by (simp add: input_data_set_error)
        next
          case False
          with acc dg Inl i1 show ?thesis by (subst run_sequential.simps) simp
        qed
      next
        case (Inr s')
        obtain r L2 where ses: "set_experiment_sample L1 s' = (r, L2)"
          by (cases "set_experiment_sample L1 s'")
        note i2 = input_data_set_experiment_sample [OF ses]
        have c2: "count_open (jobs L2) \<le> count_open (jobs L1)"
          using count_open_set_experiment_sample [of r L2 L1 s'] ses by simp
        show ?thesis
        proof (cases r)
          case None
          have "run_sequential dg g L = run_sequential dg g1 L2"
            by (subst run_sequential.simps) (simp add: acc dg Inr ses None)
          moreover have "input_data (snd (snd (run_sequential dg g1 L2))) = input_data L2"
            using c1 c2 by (intro less) simp
          ultimately show ?thesis using i1 i2 by simp
        next
          case (Some e)
          show ?thesis
          proof (cases "is_Exception e")
            case True
            let ?L3 = "snd (set_error L2 (jobnumber s))"
            have "count_open (jobs ?L3) \<le> count_open (jobs L2)"
              using count_open_set_error [of "fst (set_error L2 (jobnumber s))" ?L3 L2 "jobnumber s"]
              by simp
            with c1 c2 have "input_data (snd (snd (run_sequential dg g1 ?L3))) = input_data ?L3"
              by (intro less) simp
            moreover have "run_sequential dg g L = run_sequential dg g1 ?L3"
              by (subst run_sequential.simps)
                 (simp add: acc dg Inr ses Some True set_error_result)
            ultimately show ?thesis using i1 i2 by (simp add: input_data_set_error)
          next
            case False
            with acc dg Inr ses Some i1 i2 show ?thesis
              by (subst run_sequential.simps) simp
          qed
        qed
      qed
    qed
  qed
qed

lemma len_add_experiments:
  "len (add_experiments L new) = len L + len new"
  by (simp add: len_def add_experiments_def Data_add_def Let_def)

lemma length_nths_drop_upt:
  "length (nths xs (- set (drop m [0..<length xs]))) = min m (length xs)"
proof -
  have "{i. i < length xs \<and> i \<in> - set (drop m [0..<length xs])} = {..<min m (length xs)}"
    by (auto simp: drop_upt)
  then show ?thesis by (simp add: length_nths)
qed

lemma len_remove_rows_bottom:
  assumes "0 \<le> k"
  shows "len (remove_rows_bottom L k) = len L - nat k"
proof (cases "k = 0")
  case True
  then show ?thesis by (simp add: remove_rows_bottom_def)
next
  case False
  with assms have k: "0 < k" by simp
  let ?n = "length (rows (input_data L))"
  have "py_slice_from [0..<?n] (- k) = drop (?n - nat k) [0..<?n]"
    using k by (simp add: py_slice_from_def Let_def nat_diff_distrib' max_def)
  then show ?thesis
    using False length_nths_drop_upt [of "rows (input_data L)" "?n - nat k"]
    by (simp add: remove_rows_bottom_def Let_def len_def Data_remove_def Data_indices_def)
qed

lemma len_run_sequential:
  "run_sequential dg g L = (r, g', L') \<Longrightarrow> len L' = len L"
  using run_sequential_input_data [of dg g L] by (simp add: len_def)

lemma len_iterate_rounds:
  assumes upd: "\<And>g opt new opt' g'. update_step optimizer g opt = (Inr new, opt', g') \<Longrightarrow> len new = p"
  shows "iterate_rounds k optimizer dg opt g L = (None, L', opt', g') \<Longrightarrow> len L' = len L + k * p"
proof (induction k arbitrary: opt g L)
  case 0
  then show ?case by simp
next
  case (Suc k)
  obtain out opt1 g1 where u: "update_step optimizer g opt = (out, opt1, g1)"
    by (cases "update_step optimizer g opt")
  show ?case
  proof (cases out)
    case (Inl e)
    with Suc.prems u show ?thesis by simp
  next
    case (Inr new)
    with u upd have n: "len new = p" by blast
    obtain r g2 L2 where rs: "run_sequential dg g1 (add_experiments L new) = (r, g2, L2)"
      by (cases "run_sequential dg g1 (add_experiments L new)")
    from len_run_sequential [OF rs] n have l2: "len L2 = len L + p"
      by (simp add: len_add_experiments)
    show ?thesis
    proof (cases r)
      case (Some e)
      with Suc.prems u Inr rs show ?thesis by simp
    next
      case None
      show ?thesis
      proof (cases "optimizer_set_data optimizer L2 opt1")
        case (Inl e)
        with Suc.prems u Inr rs None show ?thesis by simp
      next
        case (Inr opt2)
        with Suc.prems u \<open>out = Inr new\<close> rs None
        have "iterate_rounds k optimizer dg opt2 g2 L2 = (None, L', opt', g')" by simp
        from Suc.IH [OF this] l2 show ?thesis by simp
      qed
    qed
  qed
qed

lemma updates_times_population:
  fixes N P :: int
  assumes "0 < N" "0 < P"
  shows "(N div P + (if N mod P > 0 then 1 else 0)) * P -
         (if N mod P = 0 then 0 else P - N mod P) = N"
proof (cases "N mod P = 0")
  case True
  then show ?thesis by (simp add: mod_0_imp_dvd)
next
  case False
  moreover have "0 \<le> N mod P" using assms by simp
  ultimately have "0 < N mod P" by linarith
  moreover have "N div P * P + N mod P = N" by simp
  ultimately show ?thesis using False by (simp add: algebra_simps)
qed

lemma len_iterate:
  assumes N: "0 < N" and P: "0 < P" and pop: "population optimizer = P"
    and upd: "\<And>g opt new opt' g'. update_step optimizer g opt = (Inr new, opt', g') \<Longrightarrow> int (len new) = P"
    and it: "iterate optimizer dg N opt g L = (None, L', opt', g')"
  shows "int (len L') = int (len L) + N"
proof -
  let ?n = "N div P + (if N mod P > 0 then 1 else 0)"
  let ?k = "if N mod P = 0 then 0 else P - N mod P"
  have nu: "number_of_updates N P = Inr ?n" using P by (simp add: number_of_updates_def)
  have no: "number_of_overiterations N P = Inr ?k"
    using P by (simp add: number_of_overiterations_def Let_def)
  from it obtain opt3 L1 opt4 g1 where
    rounds: "iterate_rounds (nat ?n) optimizer dg opt3 g L = (None, L1, opt4, g1)"
    and L': "L' = remove_rows_bottom L1 ?k"
    unfolding iterate_def pop nu no
    by (auto simp: Let_def split: sum.splits prod.splits option.splits)
  have upd': "\<And>g opt new opt' g'. update_step optimizer g opt = (Inr new, opt', g') \<Longrightarrow> len new = nat P"
    using upd by (metis nat_int)
  have l1: "len L1 = len L + nat ?n * nat P"
    by (rule len_iterate_rounds [where p = "nat P", OF _ rounds]) (erule upd')
  have "N mod P < P" using P by simp
  then have k0: "0 \<le> ?k" by simp
  have n0: "0 \<le> ?n" using N P by (simp add: pos_imp_zdiv_nonneg_iff)
  have "int (nat ?n * nat P) = ?n * P" using n0 P by (simp add: nat_mult_distrib)
  moreover have "?n * P - ?k = N" by (rule updates_times_population [OF N P])
  ultimately have "int (len L1) - ?k = int (len L) + N" using l1 by linarith
  moreover have "?k \<le> int (len L1)" using calculation N by linarith
  moreover have "len L' = len L1 - nat ?k" unfolding L' by (rule len_remove_rows_bottom [OF k0])
  ultimately show ?thesis using k0 by linarith
qed

lemma iterate_rounds_completes:
  assumes own: "returns_own_job dg" and exc: "raises_Exception_only dg"
    and upd: "\<And>g opt. \<exists>new opt' g'. update_step optimizer g opt = (Inr new, opt', g')"
    and sd: "\<And>L opt. \<exists>opt'. optimizer_set_data optimizer L opt = Inr opt'"
  shows "fst (iterate_rounds k optimizer dg opt g L) = None"
proof (induction k arbitrary: opt g L)
  case 0
  show ?case by simp
next
  case (Suc k)
  from upd [of g opt] obtain new opt1 g1 where
    u: "update_step optimizer g opt = (Inr new, opt1, g1)" by blast
  obtain r g2 L2 where rs: "run_sequential dg g1 (add_experiments L new) = (r, g2, L2)"
    by (cases "run_sequential dg g1 (add_experiments L new)")
  from run_sequential_settled [OF own exc, of g1 "add_experiments L new"] rs
  have r: "r = None" by simp
  from sd [of L2 opt1] obtain opt2 where s: "optimizer_set_data optimizer L2 opt1 = Inr opt2"
    by blast
  from Suc [of opt2 g2 L2] show ?case by (simp add: u rs r s)
qed

lemma iterate_completes:
  assumes own: "returns_own_job dg" and exc: "raises_Exception_only dg"
    and upd: "\<And>g opt. \<exists>new opt' g'. update_step optimizer g opt = (Inr new, opt', g')"
    and sd: "\<And>L opt. \<exists>opt'. optimizer_set_data optimizer L opt = Inr opt'"
    and x0: "\<And>L opt. \<exists>opt'. set_x0 optimizer L opt = Inr opt'"
    and ch: "\<And>opt. \<exists>opt'. check_number_of_datapoints optimizer opt = Inr opt'"
    and cm: "\<And>g opt. \<exists>opt'. construct_model optimizer g opt = Inr opt'"
    and rs: "\<And>opt. \<exists>opt'. reset optimizer opt = Inr opt'"
    and pop: "population optimizer \<noteq> 0"
  shows "fst (iterate optimizer dg N opt g L) = None"
proof -
  from x0 [of L opt] obtain opt1 where 1: "set_x0 optimizer L opt = Inr opt1" by blast
  from ch [of opt1] obtain opt2 where 2: "check_number_of_datapoints optimizer opt1 = Inr opt2"
    by blast
  from cm [of g opt2] obtain opt3 where 3: "construct_model optimizer g opt2 = Inr opt3" by blast
  obtain n where 4: "number_of_updates N (population optimizer) = Inr n"
    using pop by (simp add: number_of_updates_def)
  have "\<exists>k. number_of_overiterations N (population optimizer) = Inr k"
    using pop by (simp add: number_of_overiterations_def Let_def)
  then obtain k where 6: "number_of_overiterations N (population optimizer) = Inr k" ..
  obtain r L1 opt4 g1 where 5: "iterate_rounds (nat n) optimizer dg opt3 g L = (r, L1, opt4, g1)"
    by (cases "iterate_rounds (nat n) optimizer dg opt3 g L")
  from iterate_rounds_completes [OF own exc upd sd, of "nat n" opt3 g L] 5
  have r: "r = None" by simp
  from rs [of opt4] obtain opt5 where 7: "reset optimizer opt4 = Inr opt5" by blast
  show ?thesis by (simp add: iterate_def 1 2 3 4 5 r 6 7 Let_def)
qed

lemma dg_flaky_own: "returns_own_job dg_flaky"
  by (auto simp: returns_own_job_def dg_flaky_def split: if_splits)

lemma dg_flaky_exc: "raises_Exception_only dg_flaky"
  by (auto simp: raises_Exception_only_def dg_flaky_def split: if_splits)

subsection \<open>The parallel driver terminates\<close>

termination claim_all
proof (relation "measure (\<lambda>L. count_open (jobs L))", goal_cases)
  case 1
  show ?case by simp
next
  case (2 L x y b)
  then show ?case using count_open_access [of b y L] by simp
qed

declare claim_all.simps [simp del]

subsection \<open>Reading what was stored\<close>

lemma init_for_load:
  "ExperimentData_init ext fs (domain_Domain schema) data_None data_None None fname =
     Inr \<lparr>filename = fname, input_data = \<lparr>columns = map fst schema, rows = []\<rparr>,
          output_data = Data_from_indices [], jobs = [], domain = schema\<rparr>"
  by (simp add: ExperimentData_init_def construct_data_def construct_domain_def
      Data_from_domain_def Data_is_empty_def Data_empty_def Data_indices_def
      JobQueue_from_data_def Let_def)

lemma from_file_attempt_body_loaded:
  assumes "domain_files fs (fname @ ''_domain'') = Some schema"
    and "data_files fs (fname @ ''_data'') = Some inp"
    and "jobs_files fs (fname @ ''_jobs'') = Some js"
  shows "from_file_attempt_body ext fs fname =
     Inr \<lparr>filename = fname, input_data = inp,
          output_data = (case data_files fs (fname @ ''_output'') of
                           None \<Rightarrow> Data_from_indices (Data_indices inp) | Some out \<Rightarrow> out),
          jobs = js, domain = schema\<rparr>"
  using assms
  by (simp add: from_file_attempt_body_def init_for_load Domain_from_file_def
      Data_from_file_def JobQueue_from_file_def split: option.splits)

lemma from_file_attempt_body_no_data:
  assumes "data_files fs (fname @ ''_data'') = None"
  shows "\<exists>m. from_file_attempt_body ext fs fname = Inl (FileNotFoundError m)"
  using assms
  by (simp add: from_file_attempt_body_def init_for_load Domain_from_file_def
      Data_from_file_def split: option.splits)

lemma stored_files:
  "domain_files (store L (Some f) fs) (f @ ''_domain'') = Some (domain L)"
  "data_files (store L (Some f) fs) (f @ ''_data'') = Some (input_data L)"
  "data_files (store L (Some f) fs) (f @ ''_output'') = Some (output_data L)"
  "jobs_files (store L (Some f) fs) (f @ ''_jobs'') = Some (jobs L)"
  by (simp_all add: store_def Domain_store_def JobQueue_store_def Data_store_def)

lemma store_default_name: "store L None fs = store L (Some (filename L)) fs"
  by (simp add: store_def)

lemma from_file_attempt_stored:
  "from_file_attempt ext (store L (Some f) fs) f =
     Inr \<lparr>filename = f, input_data = input_data L, output_data = output_data L,
          jobs = jobs L, domain = domain L\<rparr>"
proof -
  have "from_file_attempt_body ext (store L (Some f) fs) f =
     Inr \<lparr>filename = f, input_data = input_data L,
          output_data = (case data_files (store L (Some f) fs) (f @ ''_output'') of
                           None \<Rightarrow> Data_from_indices (Data_indices (input_data L))
                         | Some out \<Rightarrow> out),
          jobs = jobs L, domain = domain L\<rparr>"
    by (rule from_file_attempt_body_loaded) (rule stored_files)+
  then show ?thesis
    by (simp add: from_file_attempt_def stored_files(3))
qed

lemma init_Inr:
  assumes a: "ExperimentData_init ext fs domain_arg input_arg output_arg jobs_arg fn = Inr L"
  shows "\<exists>input0 out schema input1.
           construct_data ext fs input_arg = Inr input0 \<and>
           construct_data ext fs output_arg = Inr out \<and>
           construct_domain ext fs input0 domain_arg = Inr schema \<and>
           (if Data_is_empty input0 then Data_from_domain ext domain_arg else Inr input0) = Inr input1 \<and>
           L = \<lparr>filename = fn, input_data = input1,
                output_data = (if Data_is_empty out then Data_from_indices (Data_indices input0)
                               else out),
                jobs = JobQueue_from_data input1 (if Data_is_empty out then OPEN else FINISHED),
                domain = schema\<rparr>"
proof (cases "construct_data ext fs input_arg")
  case (Inl e)
  with a show ?thesis by (simp add: ExperimentData_init_def)
next
  case i: (Inr input0)
  show ?thesis
  proof (cases "construct_data ext fs output_arg")
    case (Inl e)
    with a i show ?thesis by (simp add: ExperimentData_init_def)
  next
    case o: (Inr out)
    show ?thesis
    proof (cases "construct_domain ext fs input0 domain_arg")
      case (Inl e)
      with a i o show ?thesis by (simp add: ExperimentData_init_def Let_def)
    next
      case d: (Inr schema)
      show ?thesis
      proof (cases "if Data_is_empty input0 then Data_from_domain ext domain_arg else Inr input0")
        case (Inl e)
        with a i o d show ?thesis by (simp add: ExperimentData_init_def Let_def)
      next
        case n: (Inr input1)
        show ?thesis
        proof (cases "case jobs_arg of None \<Rightarrow> Inr [] | Some p \<Rightarrow> JobQueue_from_file fs p")
          case (Inl e)
          with a i o d n show ?thesis by (simp add: ExperimentData_init_def Let_def)
        next
          case (Inr jobs0)
          with a i o d n show ?thesis by (simp add: ExperimentData_init_def Let_def)
        qed
      qed
    qed
  qed
qed

lemma init_jobs_from_data:
  assumes "ExperimentData_init ext fs domain_arg input_arg output_arg jobs_arg fn = Inr L"
  shows "\<exists>out. construct_data ext fs output_arg = Inr out \<and>
           jobs L = replicate (length (rows (input_data L)))
                      (if Data_is_empty out then OPEN else FINISHED)"
proof -
  from init_Inr [OF assms] obtain input0 out schema input1 where
    "construct_data ext fs output_arg = Inr out"
    "L = \<lparr>filename = fn, input_data = input1,
                output_data = (if Data_is_empty out then Data_from_indices (Data_indices input0)
                               else out),
                jobs = JobQueue_from_data input1 (if Data_is_empty out then OPEN else FINISHED),
                domain = schema\<rparr>"
    by blast
  then show ?thesis by (simp add: JobQueue_from_data_def)
qed

lemma init_without_jobs:
  assumes "ExperimentData_init ext fs domain_arg input_arg output_arg jobs_arg fn = Inr L"
  shows "ExperimentData_init ext fs domain_arg input_arg output_arg None fn = Inr L"
proof -
  from init_Inr [OF assms] obtain input0 out schema input1 where
    "construct_data ext fs input_arg = Inr input0"
    "construct_data ext fs output_arg = Inr out"
    "construct_domain ext fs input0 domain_arg = Inr schema"
    "(if Data_is_empty input0 then Data_from_domain ext domain_arg else Inr input0) = Inr input1"
    "L = \<lparr>filename = fn, input_data = input1,
                output_data = (if Data_is_empty out then Data_from_indices (Data_indices input0)
                               else out),
                jobs = JobQueue_from_data input1 (if Data_is_empty out then OPEN else FINISHED),
                domain = schema\<rparr>"
    by blast
  then show ?thesis by (simp add: ExperimentData_init_def Let_def)
qed

subsection \<open>What the parallel driver claims\<close>

text \<open>
  The claiming loop of the parallel driver ends without an exception, returns one sample
  per row that was OPEN, and leaves exactly those rows IN_PROGRESS: all of it before the
  generator is run once.
\<close>

lemma claim_all_claims_every_open_row:
  "fst (claim_all L) = None \<and>
   length (fst (snd (claim_all L))) = count_open (jobs L) \<and>
   jobs (snd (snd (claim_all L))) = map (\<lambda>s. if s = OPEN then IN_PROGRESS else s) (jobs L)"
proof (induction "count_open (jobs L)" arbitrary: L rule: less_induct)
  case less
  let ?f = "\<lambda>s. if s = OPEN then IN_PROGRESS else s"
  show ?case
  proof (cases "access_open_job_data L")
    case (Pair out L1)
    show ?thesis
    proof (cases out)
      case (Inl e)
      with Pair have no: "OPEN \<notin> set (jobs L)" and e: "e = NoOpenJobsError" and l: "L1 = L"
        by (auto simp: access_open_job_data_def Let_def split: sum.splits dest: get_open_job_Inl)
      from no have "map ?f (jobs L) = jobs L" by (intro map_idI) auto
      moreover from no have "count_open (jobs L) = 0"
        by (auto simp: count_open_def filter_empty_conv)
      ultimately show ?thesis
        by (subst (1 2 3) claim_all.simps) (simp add: Pair Inl e l)
    next
      case (Inr s)
      with Pair have acc: "access_open_job_data L = (Inr s, L1)" by simp
      note a = access_open_job_data_Inr [OF acc]
      have lt: "count_open (jobs L1) < count_open (jobs L)"
        using count_open_access [of s L1 L] acc by simp
      note ih = less [OF lt]
      obtain r opts L2 where c: "claim_all L1 = (r, opts, L2)" by (cases "claim_all L1")
      have unf: "claim_all L = (r, s # opts, L2)"
        by (subst claim_all.simps) (simp add: acc c)
      have cnt: "count_open (jobs L) = Suc (count_open (jobs L1))"
        using a
      proof -
        have "count_open (js[i := IN_PROGRESS]) + 1 = count_open js"
          if "i < length js" "js ! i = OPEN" for js :: JobQueue and i
          using that
        proof (induction js arbitrary: i)
          case Nil
          then show ?case by simp
        next
          case (Cons x js)
          then show ?case by (cases i) (auto simp: count_open_def)
        qed
        with a show ?thesis by simp
      qed
      have "map ?f (jobs L1) = map ?f (jobs L)"
        using a by (simp add: map_update list_update_same_conv)
      with ih c unf cnt show ?thesis by simp
    qed
  qed
qed

section \<open>The claims\<close>

subsection \<open>Claiming on an exhausted ledger\<close>

text \<open>
  C4. On a ledger with no row in status OPEN, \<open>access_open_job_data\<close> raises
  \<open>NoOpenJobsError\<close>, and the ledger it leaves is the ledger it was given: file name,
  input store, output store, job statuses and schema are all unchanged.
\<close>

theorem access_open_job_data_no_open:
  "OPEN \<notin> set (jobs L) \<Longrightarrow> access_open_job_data L = (Inl NoOpenJobsError, L)"
  by (simp add: access_open_job_data_def get_open_job_no_open)

theorem access_open_job_data_no_open_witness:
  "OPEN \<notin> set (jobs L_demo) \<and> access_open_job_data L_demo = (Inl NoOpenJobsError, L_demo)"
  using access_open_job_data_no_open [of L_demo]
  by (simp add: L_demo_def)

subsection \<open>Failing a row\<close>

text \<open>
  C6. For every ledger and every index, \<open>set_error\<close> returns without raising. The job
  status at the index becomes ERROR (the queue is the old one updated at the index), the
  output row at the index keeps its columns and holds the sentinel \<open>'ERROR'\<close> in each of
  them, whatever the output columns are and whatever the status was; the input store is
  untouched.
\<close>

theorem set_error_never_raises:
  "fst (set_error L index) = None \<and>
   jobs (snd (set_error L index)) = (jobs L)[index := ERROR] \<and>
   (index < length (jobs L) \<longrightarrow> jobs (snd (set_error L index)) ! index = ERROR) \<and>
   get_data_dict (output_data (snd (set_error L index))) index =
     map (\<lambda>(c, _). (c, Text ''ERROR'')) (get_data_dict (output_data L) index) \<and>
   input_data (snd (set_error L index)) = input_data L"
  unfolding set_error_result
  using get_data_dict_set_all [of index "output_data L" "Text ''ERROR''"]
  by simp

theorem set_error_never_raises_witness:
  "(1::nat) < length (jobs L_demo) \<and>
   fst (set_error L_demo 1) = None \<and>
   jobs (snd (set_error L_demo 1)) = [FINISHED, ERROR] \<and>
   get_data_dict (output_data (snd (set_error L_demo 1))) 1 = [(''y'', Text ''ERROR'')]"
  using set_error_never_raises [of L_demo 1]
  by (simp add: L_demo_def get_data_dict_def)

subsection \<open>The sequential sweep\<close>

text \<open>
  The claim as the spec states it, for every data generator, fails twice over. A generator
  whose returned sample names another row has that row marked FINISHED while the claimed
  row stays IN_PROGRESS after a sweep that returned; and \<^verbatim>\<open>except Exception\<close> does not
  catch a \<open>KeyboardInterrupt\<close>, which reaches the caller of \<open>run\<close>.
\<close>

theorem run_sequential_counterexample:
  "fst (run_sequential dg_swap () L_open2) = None \<and>
   jobs (snd (snd (run_sequential dg_swap () L_open2))) = [IN_PROGRESS, FINISHED] \<and>
   fst (run_sequential dg_interrupt () L_open2) = Some KeyboardInterrupt"
  by ((subst run_sequential.simps, simp add: eval_defs L_open2_def dg_swap_def dg_interrupt_def)+)

text \<open>
  C1 (amended). For every data generator whose returned sample carries the job number of
  the sample it was given and which raises only exceptions that derive from \<open>Exception\<close>,
  for every state of the generator and every ledger: the sequential sweep returns without
  raising; the job queue keeps its length; every row that was OPEN at the start is
  FINISHED or ERROR at the end and every other row keeps its status; and when the
  generator raises on the row just claimed, the sweep calls \<open>set_error\<close> on that row,
  which marks it ERROR, goes on with the remaining rows, and the row is ERROR at the end.
\<close>

theorem run_sequential_settles:
  assumes "returns_own_job dg" and "raises_Exception_only dg"
  shows "fst (run_sequential dg g L) = None \<and>
    length (jobs (snd (snd (run_sequential dg g L)))) = length (jobs L) \<and>
    (\<forall>i < length (jobs L).
       if jobs L ! i = OPEN
       then jobs (snd (snd (run_sequential dg g L))) ! i = FINISHED \<or>
            jobs (snd (snd (run_sequential dg g L))) ! i = ERROR
       else jobs (snd (snd (run_sequential dg g L))) ! i = jobs L ! i) \<and>
    (\<forall>s L1 e g1. access_open_job_data L = (Inr s, L1) \<and> dg g s = (Inl e, g1) \<longrightarrow>
       run_sequential dg g L = run_sequential dg g1 (snd (set_error L1 (jobnumber s))) \<and>
       jobs (snd (set_error L1 (jobnumber s))) ! jobnumber s = ERROR \<and>
       jobs (snd (snd (run_sequential dg g L))) ! jobnumber s = ERROR)"
proof -
  let ?F = "\<lambda>g L. jobs (snd (snd (run_sequential dg g L)))"
  note main = run_sequential_settled [OF assms]
  have raised: "run_sequential dg g L = run_sequential dg g1 (snd (set_error L1 (jobnumber s))) \<and>
       jobs (snd (set_error L1 (jobnumber s))) ! jobnumber s = ERROR \<and>
       ?F g L ! jobnumber s = ERROR"
    if acc: "access_open_job_data L = (Inr s, L1)" and dg: "dg g s = (Inl e, g1)" for s L1 e g1
  proof -
    let ?L2 = "snd (set_error L1 (jobnumber s))"
    from dg assms(2) have ex: "is_Exception e" by (auto simp: raises_Exception_only_def)
    note a = access_open_job_data_Inr [OF acc]
    have r: "run_sequential dg g L = run_sequential dg g1 ?L2"
      using acc dg ex by (rule run_sequential_raised)
    have j: "jobs ?L2 = (jobs L)[jobnumber s := ERROR]"
      using a by (simp add: set_error_result)
    with a have e: "jobs ?L2 ! jobnumber s = ERROR" "jobnumber s < length (jobs ?L2)" by simp_all
    from main [of g1 ?L2] e have "?F g1 ?L2 ! jobnumber s = ERROR"
      by (auto simp: settled_def)
    with r e show ?thesis by simp
  qed
  from main [of g L] raised show ?thesis
    unfolding settled_def by blast
qed

theorem run_sequential_settles_witness:
  "returns_own_job dg_flaky \<and> raises_Exception_only dg_flaky \<and>
   fst (run_sequential dg_flaky () L_open2) = None \<and>
   jobs (snd (snd (run_sequential dg_flaky () L_open2))) = [ERROR, FINISHED]"
proof -
  have own: "returns_own_job dg_flaky"
    by (auto simp: returns_own_job_def dg_flaky_def split: if_splits)
  have exc: "raises_Exception_only dg_flaky"
    by (auto simp: raises_Exception_only_def dg_flaky_def split: if_splits)
  have run: "jobs (snd (snd (run_sequential dg_flaky () L_open2))) = [ERROR, FINISHED]"
    by ((subst run_sequential.simps, simp add: eval_defs L_open2_def dg_flaky_def)+)
  from run_sequential_settles [OF own exc, of "()" L_open2] own exc run show ?thesis
    by simp
qed

subsection \<open>Iteration reconciliation\<close>

text \<open>
  C2. For positive \<open>N\<close> (target iterations) and \<open>P\<close> (population):
  \<open>_number_of_updates(N, P)\<close> is the ceiling of \<open>N / P\<close>;
  \<open>_number_of_overiterations(N, P)\<close> is \<open>P - N mod P\<close> when \<open>N mod P\<close> is not zero and
  0 otherwise; and a run of \<open>_iterate\<close> that completes, with an optimizer of population
  \<open>P\<close> whose \<open>update_step\<close> proposes exactly \<open>P\<close> rows each round, leaves the ledger
  exactly \<open>N\<close> rows longer than it was, whatever the data generator does to the rows.
  For \<open>N = 10\<close> and \<open>P = 3\<close> that is 4 rounds and a trim of 2.
\<close>

theorem iteration_reconciliation:
  assumes "0 < N" and "0 < P"
  shows "number_of_updates N P = Inr \<lceil>real_of_int N / real_of_int P\<rceil> \<and>
    number_of_overiterations N P = Inr (if N mod P \<noteq> 0 then P - N mod P else 0) \<and>
    (population optimizer = P \<and>
     (\<forall>g opt new opt' g'. update_step optimizer g opt = (Inr new, opt', g') \<longrightarrow>
        int (len new) = P) \<and>
     fst (iterate optimizer dg N opt g L) = None \<longrightarrow>
       int (len (fst (snd (iterate optimizer dg N opt g L)))) = int (len L) + N) \<and>
    number_of_updates 10 3 = Inr 4 \<and> number_of_overiterations 10 3 = Inr 2"
proof (intro conjI impI)
  show "number_of_updates N P = Inr \<lceil>real_of_int N / real_of_int P\<rceil>"
    using assms by (simp add: number_of_updates_def ceiling_div_int)
  show "number_of_overiterations N P = Inr (if N mod P \<noteq> 0 then P - N mod P else 0)"
    using assms by (simp add: number_of_overiterations_def Let_def)
  show "number_of_updates 10 3 = Inr 4" by (simp add: number_of_updates_def)
  show "number_of_overiterations 10 3 = Inr 2" by (simp add: number_of_overiterations_def)
next
  assume a: "population optimizer = P \<and>
     (\<forall>g opt new opt' g'. update_step optimizer g opt = (Inr new, opt', g') \<longrightarrow>
        int (len new) = P) \<and>
     fst (iterate optimizer dg N opt g L) = None"
  obtain L' opt' g' where it: "iterate optimizer dg N opt g L = (None, L', opt', g')"
    using a by (cases "iterate optimizer dg N opt g L") auto
  from a have pop: "population optimizer = P" by simp
  have "int (len L') = int (len L) + N"
    by (rule len_iterate [OF assms pop _ it]) (use a in blast)
  with it show "int (len (fst (snd (iterate optimizer dg N opt g L)))) = int (len L) + N"
    by simp
qed

theorem iteration_reconciliation_witness:
  "(0::int) < 10 \<and> (0::int) < 3 \<and> population opt_demo = 3 \<and>
   number_of_updates 10 3 = Inr \<lceil>real_of_int 10 / real_of_int 3\<rceil> \<and>
   fst (iterate opt_demo dg_flaky 10 () () L_demo) = None \<and>
   len (fst (snd (iterate opt_demo dg_flaky 10 () () L_demo))) = 12"
proof -
  have fin: "fst (iterate opt_demo dg_flaky 10 () () L_demo) = None"
    by (rule iterate_completes [OF dg_flaky_own dg_flaky_exc]) (simp_all add: opt_demo_def)
  have upd: "\<forall>g opt new opt' g'. update_step opt_demo g opt = (Inr new, opt', g') \<longrightarrow>
        int (len new) = 3"
    by (auto simp: opt_demo_def batch3_def len_def)
  have pop: "population opt_demo = 3" by (simp add: opt_demo_def)
  have l: "len L_demo = 2" by (simp add: L_demo_def len_def)
  from iteration_reconciliation [of 10 3 opt_demo dg_flaky "()" "()" L_demo] fin upd pop l
  show ?thesis by simp
qed

subsection \<open>The parallel driver\<close>

text \<open>
  C5. The parallel driver does claim every open row before any evaluation and commits
  only after the pool has returned. But a failing evaluation is not turned into ERROR for
  its row: \<open>pool.starmap\<close> raises, nothing is committed, the exception reaches the
  caller and every claimed row stays IN_PROGRESS. Here the generator fails on row 0 of
  two open rows and would succeed on row 1.
\<close>

theorem run_multiprocessing_aborts:
  "run_multiprocessing dg_flaky () L_open2 =
     (Some (RuntimeError ''diverged''), L_open2\<lparr>jobs := [IN_PROGRESS, IN_PROGRESS]\<rparr>)"
  unfolding run_multiprocessing_def
  by ((subst claim_all.simps, simp add: eval_defs L_open2_def dg_flaky_def)+)

subsection \<open>Choosing a storage strategy\<close>

text \<open>
  The claim as the spec states it says that a value of an unregistered type is pickled
  without failing. The choice of \<open>PickleStore\<close> does not fail, but the store it leads to
  can: a lambda has the unregistered type \<open>function\<close>, \<open>pickle.dump\<close> raises a
  \<open>PicklingError\<close> on it, and \<open>save_object\<close> lets that exception through after it has
  logged the debug record. Nothing is stored and no suffix is returned.
\<close>

theorem save_object_counterexample:
  "py_type a_lambda \<notin> {np_ndarray, pd_DataFrame, pd_Series, xr_DataArray, xr_Dataset} \<and>
   save_object lib_lambda a_lambda ''y_0'' ''experiment_data'' None [] =
     (Inl (PicklingError ''Can't pickle <function <lambda>>''),
      [logger_debug (not_supported_message (other_type ''function''))])"
  by (simp add: save_object_def STORE_TYPE_MAPPING_def a_lambda_def lib_lambda_def lib_ok_def)

text \<open>
  C8 (amended). Called without a store method, \<open>save_object\<close> picks the storage class by
  looking the value's exact runtime type up in \<open>STORE_TYPE_MAPPING\<close>: numpy arrays go to
  \<open>NumpyStore\<close>, pandas DataFrames and Series to \<open>PandasStore\<close>, xarray DataArrays and
  Datasets to \<open>XarrayStore\<close>, and no other type is in the table. For a registered type
  the \<open>store\<close> of that class is called, with no log record; for every other type one
  debug record is logged and the \<open>store\<close> of \<open>PickleStore\<close> is called: the unknown type
  is not an error of its own. In both cases \<open>save_object\<close> returns the suffix of the class
  when \<open>store\<close> returns, and raises what \<open>store\<close> raises when it raises.
\<close>

theorem save_object_strategy:
  "(\<forall>cls. map_of STORE_TYPE_MAPPING (py_type object) = Some cls \<longrightarrow>
      save_object lib object path dir None io =
        (case Store_store lib cls object dir path of
           None \<Rightarrow> (Inr (Some (suffix cls)), io @ [storage_store cls object dir path])
         | Some e \<Rightarrow> (Inl e, io))) \<and>
   (py_type object \<notin> {np_ndarray, pd_DataFrame, pd_Series, xr_DataArray, xr_Dataset} \<longrightarrow>
      save_object lib object path dir None io =
        (case Store_store lib PickleStore object dir path of
           None \<Rightarrow>
             (Inr (Some ''.pkl''),
              io @ [logger_debug (not_supported_message (py_type object)),
                    storage_store PickleStore object dir path])
         | Some e \<Rightarrow> (Inl e, io @ [logger_debug (not_supported_message (py_type object))]))) \<and>
   map_of STORE_TYPE_MAPPING np_ndarray = Some NumpyStore \<and>
   map_of STORE_TYPE_MAPPING pd_DataFrame = Some PandasStore \<and>
   map_of STORE_TYPE_MAPPING pd_Series = Some PandasStore \<and>
   map_of STORE_TYPE_MAPPING xr_DataArray = Some XarrayStore \<and>
   map_of STORE_TYPE_MAPPING xr_Dataset = Some XarrayStore \<and>
   (\<forall>n. map_of STORE_TYPE_MAPPING (other_type n) = None)"
proof (cases "py_type object")
  case (other_type n)
  then show ?thesis
    by (cases "Store_store lib PickleStore object dir path")
       (simp_all add: save_object_def STORE_TYPE_MAPPING_def)
qed (simp_all add: save_object_def STORE_TYPE_MAPPING_def split: option.splits)

theorem save_object_strategy_witness:
  "map_of STORE_TYPE_MAPPING (py_type \<lparr>py_type = pd_Series, py_content = ''s''\<rparr>) = Some PandasStore \<and>
   save_object lib_ok \<lparr>py_type = pd_Series, py_content = ''s''\<rparr> ''y_0'' ''experiment_data'' None [] =
     (Inr (Some ''.csv''),
      [storage_store PandasStore \<lparr>py_type = pd_Series, py_content = ''s''\<rparr> ''experiment_data'' ''y_0'']) \<and>
   py_type \<lparr>py_type = other_type ''dict'', py_content = ''d''\<rparr>
     \<notin> {np_ndarray, pd_DataFrame, pd_Series, xr_DataArray, xr_Dataset} \<and>
   save_object lib_ok \<lparr>py_type = other_type ''dict'', py_content = ''d''\<rparr> ''y_0'' ''experiment_data'' None [] =
     (Inr (Some ''.pkl''),
      [logger_debug (not_supported_message (other_type ''dict'')),
       storage_store PickleStore \<lparr>py_type = other_type ''dict'', py_content = ''d''\<rparr>
         ''experiment_data'' ''y_0'']) \<and>
   save_object lib_lambda \<lparr>py_type = other_type ''dict'', py_content = ''d''\<rparr> ''y_0'' ''experiment_data'' None [] =
     (Inr (Some ''.pkl''),
      [logger_debug (not_supported_message (other_type ''dict'')),
       storage_store PickleStore \<lparr>py_type = other_type ''dict'', py_content = ''d''\<rparr>
         ''experiment_data'' ''y_0''])"
  using save_object_strategy [of "\<lparr>py_type = pd_Series, py_content = ''s''\<rparr>" lib_ok "''y_0''" "''experiment_data''" "[]"]
    save_object_strategy [of "\<lparr>py_type = other_type ''dict'', py_content = ''d''\<rparr>" lib_ok "''y_0''" "''experiment_data''" "[]"]
    save_object_strategy [of "\<lparr>py_type = other_type ''dict'', py_content = ''d''\<rparr>" lib_lambda "''y_0''" "''experiment_data''" "[]"]
  by (simp add: lib_ok_def lib_lambda_def a_lambda_def)

subsection \<open>Loading with missing files\<close>

text \<open>
  The claim as the spec states it says that with the \<open>_output\<close> file absent the rows are
  inferred as all open. The load does not infer statuses: it reads them from the
  \<open>_jobs\<close> file. On this disk the row comes back FINISHED with its output unset.
\<close>

theorem from_file_attempt_counterexample:
  "data_files fs_no_output ''exp_output'' = None \<and>
   from_file_attempt ext_demo fs_no_output ''exp'' =
     Inr \<lparr>filename = ''exp'',
          input_data = \<lparr>columns = [''x''], rows = [[Number 1]]\<rparr>,
          output_data = \<lparr>columns = [], rows = [[]]\<rparr>,
          jobs = [FINISHED],
          domain = [(''x'', ContinuousParameter)]\<rparr>"
  by (simp add: from_file_attempt_def from_file_attempt_body_loaded fs_no_output_def
      Data_from_indices_def Data_indices_def)

text \<open>
  C7 (amended). Loading a persisted ledger (no \<open>text_io\<close> stream given): when the
  \<open>_output\<close> file is absent and the \<open>_domain\<close>, \<open>_data\<close> and \<open>_jobs\<close> files are
  present, the load succeeds; the output store has one row without values per input row,
  and the job statuses are the ones of the \<open>_jobs\<close> file, whatever they are. When the
  \<open>_data\<close> file is absent the load fails with a \<open>FileNotFoundError\<close>.
\<close>

theorem from_file_attempt_missing_files:
  "(data_files fs (fname @ ''_output'') = None \<and>
    domain_files fs (fname @ ''_domain'') = Some schema \<and>
    data_files fs (fname @ ''_data'') = Some inp \<and>
    jobs_files fs (fname @ ''_jobs'') = Some js \<longrightarrow>
      from_file_attempt ext fs fname =
        Inr \<lparr>filename = fname, input_data = inp,
             output_data = \<lparr>columns = [], rows = map (\<lambda>_. []) (rows inp)\<rparr>,
             jobs = js, domain = schema\<rparr>) \<and>
   (data_files fs (fname @ ''_data'') = None \<longrightarrow>
      (\<exists>m. from_file_attempt ext fs fname = Inl (FileNotFoundError m)))"
proof (intro conjI impI)
  assume a: "data_files fs (fname @ ''_output'') = None \<and>
    domain_files fs (fname @ ''_domain'') = Some schema \<and>
    data_files fs (fname @ ''_data'') = Some inp \<and>
    jobs_files fs (fname @ ''_jobs'') = Some js"
  then have "from_file_attempt_body ext fs fname =
     Inr \<lparr>filename = fname, input_data = inp,
          output_data = Data_from_indices (Data_indices inp), jobs = js, domain = schema\<rparr>"
    using from_file_attempt_body_loaded [of fs fname schema inp js ext] by simp
  then show "from_file_attempt ext fs fname =
        Inr \<lparr>filename = fname, input_data = inp,
             output_data = \<lparr>columns = [], rows = map (\<lambda>_. []) (rows inp)\<rparr>,
             jobs = js, domain = schema\<rparr>"
    by (simp add: from_file_attempt_def Data_from_indices_def Data_indices_def map_replicate_const)
next
  assume "data_files fs (fname @ ''_data'') = None"
  from from_file_attempt_body_no_data [OF this, of ext]
  obtain m where "from_file_attempt_body ext fs fname = Inl (FileNotFoundError m)" ..
  then show "\<exists>m. from_file_attempt ext fs fname = Inl (FileNotFoundError m)"
    by (simp add: from_file_attempt_def)
qed

theorem from_file_attempt_missing_files_witness:
  "data_files fs_no_output (''exp'' @ ''_output'') = None \<and>
   domain_files fs_no_output (''exp'' @ ''_domain'') = Some [(''x'', ContinuousParameter)] \<and>
   data_files fs_no_output (''exp'' @ ''_data'') = Some \<lparr>columns = [''x''], rows = [[Number 1]]\<rparr> \<and>
   jobs_files fs_no_output (''exp'' @ ''_jobs'') = Some [FINISHED] \<and>
   from_file_attempt ext_demo fs_no_output ''exp'' =
     Inr \<lparr>filename = ''exp'', input_data = \<lparr>columns = [''x''], rows = [[Number 1]]\<rparr>,
          output_data = \<lparr>columns = [], rows = [[]]\<rparr>,
          jobs = [FINISHED], domain = [(''x'', ContinuousParameter)]\<rparr> \<and>
   data_files fs_empty (''exp'' @ ''_data'') = None \<and>
   (\<exists>m. from_file_attempt ext_demo fs_empty ''exp'' = Inl (FileNotFoundError m))"
  using from_file_attempt_missing_files [of fs_no_output "''exp''" "[(''x'', ContinuousParameter)]"
      "\<lparr>columns = [''x''], rows = [[Number 1]]\<rparr>" "[FINISHED]" ext_demo]
    from_file_attempt_missing_files [of fs_empty "''exp''" "[]" Data_empty "[]" ext_demo]
  by (simp add: fs_no_output_def fs_empty_def)

subsection \<open>Storing and loading back\<close>

text \<open>
  C3. For every ledger \<open>L\<close> and every disk, loading from the name the ledger was stored
  under (its own file name, or the one given to \<open>store\<close>) succeeds and yields a ledger
  equal to \<open>L\<close> in the sense of \<open>__eq__\<close>: same input table, same output table, same
  job statuses, same schema.
\<close>

theorem store_from_file_roundtrip:
  "\<exists>L'. from_file ext (store L filename_arg fs) original_cwd
            (case filename_arg of None \<Rightarrow> filename L | Some f \<Rightarrow> f) = Inr L' \<and>
         ExperimentData_eq L' L"
proof (cases filename_arg)
  case None
  then show ?thesis
    by (simp add: store_default_name from_file_def from_file_attempt_stored ExperimentData_eq_def)
next
  case (Some f)
  then show ?thesis
    by (simp add: from_file_def from_file_attempt_stored ExperimentData_eq_def)
qed

theorem store_from_file_roundtrip_witness:
  "from_file ext_demo (store L_demo None fs_empty) None (filename L_demo) = Inr L_demo \<and>
   ExperimentData_eq L_demo L_demo"
  using store_from_file_roundtrip [of ext_demo L_demo None fs_empty None]
  by (simp add: store_default_name from_file_def from_file_attempt_stored L_demo_def
      ExperimentData_eq_def)

subsection \<open>The \<open>jobs\<close> argument of the constructor\<close>

text \<open>
  C10. Whenever \<open>__init__\<close> returns an object, the same call without the \<open>jobs\<close>
  argument returns the same object: the queue read from a supplied jobs file is
  overwritten by the queue built from the input data. That queue has one status per input
  row, the same for all: OPEN when no output data was supplied (or the supplied output
  holds no value), FINISHED when output data holding values was supplied.
\<close>

theorem init_ignores_jobs:
  "ExperimentData_init ext fs domain_arg input_arg output_arg jobs_arg fn = Inr L \<longrightarrow>
     ExperimentData_init ext fs domain_arg input_arg output_arg None fn = Inr L \<and>
     (output_arg = data_None \<longrightarrow> jobs L = replicate (length (rows (input_data L))) OPEN) \<and>
     (\<forall>out. construct_data ext fs output_arg = Inr out \<longrightarrow>
        jobs L = replicate (length (rows (input_data L)))
                   (if Data_is_empty out then OPEN else FINISHED))"
proof
  assume a: "ExperimentData_init ext fs domain_arg input_arg output_arg jobs_arg fn = Inr L"
  from init_jobs_from_data [OF a] obtain out where
    o: "construct_data ext fs output_arg = Inr out"
       "jobs L = replicate (length (rows (input_data L)))
                   (if Data_is_empty out then OPEN else FINISHED)" by blast
  have "output_arg = data_None \<longrightarrow> jobs L = replicate (length (rows (input_data L))) OPEN"
    using o by (auto simp: construct_data_def Data_is_empty_def Data_empty_def)
  with init_without_jobs [OF a] o
  show "ExperimentData_init ext fs domain_arg input_arg output_arg None fn = Inr L \<and>
     (output_arg = data_None \<longrightarrow> jobs L = replicate (length (rows (input_data L))) OPEN) \<and>
     (\<forall>out. construct_data ext fs output_arg = Inr out \<longrightarrow>
        jobs L = replicate (length (rows (input_data L)))
                   (if Data_is_empty out then OPEN else FINISHED))"
    by simp
qed

theorem init_ignores_jobs_witness:
  "ExperimentData_init ext_demo fs_no_output (domain_Domain [(''x'', ContinuousParameter)])
     (data_Data \<lparr>columns = [''x''], rows = [[Number 1], [Number 2]]\<rparr>) data_None
     (Some ''exp_jobs'') ''exp'' =
     Inr \<lparr>filename = ''exp'',
          input_data = \<lparr>columns = [''x''], rows = [[Number 1], [Number 2]]\<rparr>,
          output_data = \<lparr>columns = [], rows = [[], []]\<rparr>,
          jobs = [OPEN, OPEN],
          domain = [(''x'', ContinuousParameter)]\<rparr> \<and>
   jobs_files fs_no_output ''exp_jobs'' = Some [FINISHED] \<and>
   ExperimentData_init ext_demo fs_no_output (domain_Domain [(''x'', ContinuousParameter)])
     (data_Data \<lparr>columns = [''x''], rows = [[Number 1], [Number 2]]\<rparr>) data_None
     None ''exp'' =
     Inr \<lparr>filename = ''exp'',
          input_data = \<lparr>columns = [''x''], rows = [[Number 1], [Number 2]]\<rparr>,
          output_data = \<lparr>columns = [], rows = [[], []]\<rparr>,
          jobs = [OPEN, OPEN],
          domain = [(''x'', ContinuousParameter)]\<rparr>"
proof -
  have 1: "ExperimentData_init ext_demo fs_no_output (domain_Domain [(''x'', ContinuousParameter)])
     (data_Data \<lparr>columns = [''x''], rows = [[Number 1], [Number 2]]\<rparr>) data_None
     (Some ''exp_jobs'') ''exp'' =
     Inr \<lparr>filename = ''exp'',
          input_data = \<lparr>columns = [''x''], rows = [[Number 1], [Number 2]]\<rparr>,
          output_data = \<lparr>columns = [], rows = [[], []]\<rparr>,
          jobs = [OPEN, OPEN],
          domain = [(''x'', ContinuousParameter)]\<rparr>"
    by (simp add: ExperimentData_init_def construct_data_def construct_domain_def
        Data_is_empty_def Data_empty_def Data_indices_def Data_from_indices_def
        JobQueue_from_file_def JobQueue_from_data_def fs_no_output_def Let_def)
  from init_ignores_jobs [of ext_demo fs_no_output "domain_Domain [(''x'', ContinuousParameter)]"
      "data_Data \<lparr>columns = [''x''], rows = [[Number 1], [Number 2]]\<rparr>" data_None
      "Some ''exp_jobs''" "''exp''"] 1
  show ?thesis by (simp add: fs_no_output_def)
qed

end
